theory Spec2Isabelle
  imports Main
begin

section \<open>JavaScript values, objects and the world\<close>

text \<open>
  The helpers of the repository are JavaScript closures that run SQL before and after a
  Jest test or describe block. The values they receive are modelled by \<open>jsval\<close>:
  \<open>undefined\<close>, \<open>null\<close>, strings, arrays, references to context maps and functions.
  Strings are lists of 8-bit characters.
\<close>

type_synonym addr = nat
type_synonym funid = nat

datatype jsval =
    JUndefined
  | JNull
  | JStr string
  | JArr "jsval list"
  | JObj addr
  | JFun funid

text \<open>
  A \<open>ContextMap\<close> is declared as \<open>{ [property: string]: string }\<close>. The describe helper
  itself stores \<open>undefined\<close> under a key, so an own property holds a string or
  \<open>undefined\<close>. An object is the map of its own properties.
\<close>

datatype propval = PUndefined | PStr string

type_synonym jsobject = "string \<rightharpoonup> propval"

text \<open>
  Reading \<open>obj[key]\<close> looks at the own properties first and then at \<open>Object.prototype\<close>,
  which every object made by an object literal or a spread has as its prototype. So a
  read gives \<open>undefined\<close>, a string, one of the built-in functions of \<open>Object.prototype\<close>,
  or, for the key \<open>__proto__\<close>, the prototype itself. A built-in function and the
  prototype are truthy. As a string, Node writes a built-in function \<open>f\<close> as
  \<open>function f() { [native code] }\<close> and the prototype as \<open>[object Object]\<close>.
\<close>

datatype readval = RUndefined | RStr string | RNative string | RObjectPrototype

definition objectPrototype :: "string \<rightharpoonup> readval" where
  "objectPrototype =
     [''constructor'' \<mapsto> RNative ''Object'',
      ''__defineGetter__'' \<mapsto> RNative ''__defineGetter__'',
      ''__defineSetter__'' \<mapsto> RNative ''__defineSetter__'',
      ''hasOwnProperty'' \<mapsto> RNative ''hasOwnProperty'',
      ''__lookupGetter__'' \<mapsto> RNative ''__lookupGetter__'',
      ''__lookupSetter__'' \<mapsto> RNative ''__lookupSetter__'',
      ''isPrototypeOf'' \<mapsto> RNative ''isPrototypeOf'',
      ''propertyIsEnumerable'' \<mapsto> RNative ''propertyIsEnumerable'',
      ''toString'' \<mapsto> RNative ''toString'',
      ''valueOf'' \<mapsto> RNative ''valueOf'',
      ''toLocaleString'' \<mapsto> RNative ''toLocaleString'',
      ''__proto__'' \<mapsto> RObjectPrototype]"

definition getProp :: "jsobject \<Rightarrow> string \<Rightarrow> readval" where
  "getProp obj key =
     (case obj key of
        Some PUndefined \<Rightarrow> RUndefined
      | Some (PStr s) \<Rightarrow> RStr s
      | None \<Rightarrow> (case objectPrototype key of None \<Rightarrow> RUndefined | Some inherited \<Rightarrow> inherited))"

fun truthy :: "readval \<Rightarrow> bool" where
  "truthy RUndefined = False"
| "truthy (RStr s) = (s \<noteq> [])"
| "truthy (RNative f) = True"
| "truthy RObjectPrototype = True"

fun readToString :: "readval \<Rightarrow> string" where
  "readToString RUndefined = ''undefined''"
| "readToString (RStr s) = s"
| "readToString (RNative f) = ''function '' @ f @ ''() { [native code] }''"
| "readToString RObjectPrototype = ''[object Object]''"

section \<open>String primitives\<close>

definition isWordChar :: "char \<Rightarrow> bool" where
  \<comment> \<open>the character class \<open>[A-Za-z0-9_]\<close>\<close>
  "isWordChar c \<longleftrightarrow>
     c \<in> set ''ABCDEFGHIJKLMNOPQRSTUVWXYZabcdefghijklmnopqrstuvwxyz0123456789_''"

definition isWhiteSpace :: "char \<Rightarrow> bool" where
  \<comment> \<open>what \<open>String.prototype.trim\<close> strips, among the 8-bit characters:
      TAB, LF, VT, FF, CR, space and the no-break space\<close>
  "isWhiteSpace c \<longleftrightarrow>
     c \<in> {CHR 0x09, CHR 0x0A, CHR 0x0B, CHR 0x0C, CHR 0x0D, CHR 0x20, CHR 0xA0}"

definition trim :: "string \<Rightarrow> string" where
  "trim s = rev (dropWhile isWhiteSpace (rev (dropWhile isWhiteSpace s)))"

fun splitOn :: "char \<Rightarrow> string \<Rightarrow> string list" where
  \<comment> \<open>\<open>s.split(c)\<close>: the empty string gives one empty piece\<close>
  "splitOn c [] = [[]]"
| "splitOn c (x # xs) =
     (if x = c then [] # splitOn c xs
      else (case splitOn c xs of
              [] \<Rightarrow> [[x]]
            | p # ps \<Rightarrow> (x # p) # ps))"

fun joinWith :: "string \<Rightarrow> string list \<Rightarrow> string" where
  \<comment> \<open>\<open>xs.join(sep)\<close>\<close>
  "joinWith sep [] = []"
| "joinWith sep [x] = x"
| "joinWith sep (x # y # ys) = x @ sep @ joinWith sep (y # ys)"

section \<open>Template substitution\<close>

text \<open>
  \<open>line.replaceAll(/\{([A-Za-z0-9_]+)}/g, f)\<close> scans the line from the left. A match
  at a position needs an opening brace, one or more word characters and a closing brace.
  The closing brace is not a word character, so the only run of word characters that can
  be followed by it is the longest one: \<open>matchToken\<close> takes that run and asks for the
  brace after it. It returns the captured key and the text after the match.
\<close>

definition matchToken :: "string \<Rightarrow> (string \<times> string) option" where
  "matchToken s =
     (case s of
        [] \<Rightarrow> None
      | c # cs \<Rightarrow>
          if c = CHR ''{'' then
            (let key = takeWhile isWordChar cs;
                 rest = dropWhile isWordChar cs
             in (case rest of
                   [] \<Rightarrow> None
                 | r # after \<Rightarrow>
                     if key \<noteq> [] \<and> r = CHR ''}'' then Some (key, after) else None))
          else None)"

lemma matchToken_shorter:
  "matchToken s = Some (key, rest) \<Longrightarrow> length rest < length s"
proof -
  assume m: "matchToken s = Some (key, rest)"
  then obtain cs where s: "s = CHR ''{'' # cs"
    by (auto simp: matchToken_def split: list.splits if_splits)
  from m s obtain r where "dropWhile isWordChar cs = r # rest"
    by (auto simp: matchToken_def Let_def split: list.splits if_splits)
  then have "length rest < length (dropWhile isWordChar cs)" by simp
  also have "\<dots> \<le> length cs" by (rule length_dropWhile_le)
  finally show ?thesis using s by simp
qed

function replaceAllTokens :: "(string \<Rightarrow> string) \<Rightarrow> string \<Rightarrow> string" where
  "replaceAllTokens f [] = []"
| "replaceAllTokens f (c # cs) =
     (case matchToken (c # cs) of
        Some (key, rest) \<Rightarrow> f key @ replaceAllTokens f rest
      | None \<Rightarrow> c # replaceAllTokens f cs)"
  by pat_completeness auto
termination
  by (relation "measure (\<lambda>(f, s). length s)") (auto dest: matchToken_shorter)

definition contextValue :: "jsobject \<Rightarrow> string \<Rightarrow> string" where
  \<comment> \<open>the replacer \<open>(_match, key) => contextMap[key] || `{${key}}`\<close>; what it returns is
      put into the text as a string\<close>
  "contextValue contextMap key =
     (let v = getProp contextMap key
      in if truthy v then readToString v else ''{'' @ key @ ''}'')"

definition replaceLine :: "jsobject \<Rightarrow> string option \<Rightarrow> string" where
  \<comment> \<open>one line of \<open>replaceWithContext\<close>; \<open>None\<close> is a \<open>null\<close> or \<open>undefined\<close> line,
      on which \<open>line?.replaceAll\<close> gives \<open>undefined\<close>, and \<open>modified || ''\<close> the empty string\<close>
  "replaceLine contextMap line =
     (case map_option (replaceAllTokens (contextValue contextMap)) line of
        None \<Rightarrow> []
      | Some modified \<Rightarrow> if modified \<noteq> [] then modified else [])"

definition replaceWithContext :: "jsobject \<Rightarrow> string option list \<Rightarrow> string list" where
  "replaceWithContext contextMap lines = map (replaceLine contextMap) lines"

section \<open>Errors, events, the world and the collaborators\<close>

text \<open>
  An error is an object with a message. \<open>Foreign n\<close> is the identity of an error object
  made outside this file (by the database driver, the file system, the parser or a test
  body); \<open>Constructed\<close> is the \<open>new Error(...)\<close> of the helpers; \<open>RuntimeTypeError\<close> is
  a \<open>TypeError\<close> of the language itself. \<open>OutsideModel\<close> marks the one call shape the
  model does not follow: a second of five arguments that is a string, an array or a
  function, where a \<open>ContextMap\<close> is declared.
\<close>

datatype errorObject = Foreign nat | Constructed | RuntimeTypeError | OutsideModel

datatype jserror = JsError (errorObject: errorObject) (message: string)

definition setMessage :: "jserror \<Rightarrow> string \<Rightarrow> jserror" where
  \<comment> \<open>\<open>ex.message = m\<close>: the same object, with another message\<close>
  "setMessage ex m = JsError (errorObject ex) m"

datatype itKind = It | ItOnly | ItFailing | ItSkip

datatype describeKind = Describe | DescribeSkip | DescribeOnly

text \<open>
  The callbacks that the helpers hand to Jest are closures. A closure is the record of the
  variables it captured; \<open>testCallback\<close>, \<open>describeCallback\<close> and \<open>hookCallback\<close> below
  are their bodies.
\<close>

record testClosure =
  tcContextMap :: addr
  tcSqlSetup :: jsval
  tcSqlTeardown :: jsval
  tcTestFunc :: jsval
  tcPathnameDir :: string
  tcTreatAsFiles :: bool

record describeClosure =
  dcContextMap :: addr
  dcSqlSetup :: jsval
  dcSqlTeardown :: jsval
  dcDescribeBlock :: jsval
  dcPathnameDir :: string
  dcTreatAsFiles :: bool

record hookClosure =
  hcContextMap :: addr
  hcSql :: jsval
  hcPathnameDir :: string
  hcTreatAsFiles :: bool

datatype event =
    ExecuteRawUnsafe string  \<comment> \<open>\<open>db.$executeRawUnsafe(statement)\<close>\<close>
  | Disconnect  \<comment> \<open>\<open>db.$disconnect()\<close>\<close>
  | Invoked funid "jsval list"  \<comment> \<open>a call of a function of the caller\<close>
  | ItCalled itKind jsval testClosure  \<comment> \<open>\<open>it(testName, callback)\<close>\<close>
  | DescribeCalled describeKind jsval describeClosure  \<comment> \<open>\<open>describeFunc(name, callback)\<close>\<close>
  | BeforeAllCalled hookClosure
  | AfterAllCalled hookClosure

text \<open>
  The world is the heap of context maps, the next free address and the events so far, in
  the order they happened. An address below \<open>nextAddr\<close> is allocated; a new object takes
  the address \<open>nextAddr\<close>.
\<close>

record world =
  heap :: "addr \<Rightarrow> jsobject"
  nextAddr :: addr
  trace :: "event list"

definition allocate :: "jsobject \<Rightarrow> world \<Rightarrow> addr \<times> world" where
  "allocate obj w =
     (nextAddr w, w\<lparr>heap := (heap w)(nextAddr w := obj), nextAddr := Suc (nextAddr w)\<rparr>)"

definition emit :: "event \<Rightarrow> world \<Rightarrow> world" where
  "emit e w = w\<lparr>trace := trace w @ [e]\<rparr>"

text \<open>
  The collaborators are not code of this repository and are parameters of the model: the
  environment variables, the database channel, the file system, the SQL parser
  (\<open>parser.sqlify(parser.astify(text))\<close> as one function), \<open>path.parse(p).dir\<close>,
  \<open>JSON.stringify\<close> and the functions of the caller. The database and the file system
  answer from the events so far, so a statement can depend on what ran before it.
\<close>

record env =
  processEnv :: "string \<rightharpoonup> string"
  executeRawUnsafe :: "event list \<Rightarrow> string \<Rightarrow> jserror option"
  disconnect :: "event list \<Rightarrow> jserror option"
  readFileSync :: "event list \<Rightarrow> string \<Rightarrow> jserror + string"
  sqlifyAstify :: "string \<Rightarrow> jserror + string"
  pathParseDir :: "string \<Rightarrow> string"
  jsonStringify :: "jsval list \<Rightarrow> string"
  callFunction :: "funid \<Rightarrow> jsval list \<Rightarrow> world \<Rightarrow> (jserror + jsval) \<times> world"

definition orDefault :: "string option \<Rightarrow> string \<Rightarrow> string" where
  \<comment> \<open>\<open>process.env.NAME || 'literal'\<close>\<close>
  "orDefault v d = (case v of None \<Rightarrow> d | Some s \<Rightarrow> if s \<noteq> [] then s else d)"

definition startingContext :: "env \<Rightarrow> jsobject" where
  "startingContext E =
     [''TEST_DATABASE_DBNAME'' \<mapsto>
        PStr (orDefault (processEnv E ''TEST_DATABASE_DBNAME'') ''am_admin_test''),
      ''DISTRICT_TEST_DATABASE_DBNAME'' \<mapsto>
        PStr (orDefault (processEnv E ''DISTRICT_TEST_DATABASE_DBNAME'') ''amd_district_test'')]"

section \<open>The SQL executor\<close>

fun toArray :: "jsval \<Rightarrow> jsval list" where
  "toArray (JArr xs) = xs"
| "toArray v = [v]"

fun nonBlank :: "jsval \<Rightarrow> jserror + string option" where
  \<comment> \<open>the filter \<open>entry && entry.trim().length > 0\<close>: \<open>Some s\<close> keeps the string,
      \<open>None\<close> drops the entry; a truthy entry that is not a string has no \<open>trim\<close>\<close>
  "nonBlank JUndefined = Inr None"
| "nonBlank JNull = Inr None"
| "nonBlank (JStr s) = Inr (if s \<noteq> [] \<and> length (trim s) > 0 then Some s else None)"
| "nonBlank (JArr xs) = Inl (JsError RuntimeTypeError ''entry.trim is not a function'')"
| "nonBlank (JObj a) = Inl (JsError RuntimeTypeError ''entry.trim is not a function'')"
| "nonBlank (JFun f) = Inl (JsError RuntimeTypeError ''entry.trim is not a function'')"

fun actualCommands :: "jsval list \<Rightarrow> jserror + string list" where
  "actualCommands [] = Inr []"
| "actualCommands (entry # entries) =
     (case nonBlank entry of
        Inl ex \<Rightarrow> Inl ex
      | Inr keep \<Rightarrow>
          (case actualCommands entries of
             Inl ex \<Rightarrow> Inl ex
           | Inr kept \<Rightarrow> Inr (case keep of None \<Rightarrow> kept | Some s \<Rightarrow> s # kept)))"

definition getFullFilename :: "string \<Rightarrow> string \<Rightarrow> string" where
  \<comment> \<open>\<open>`${pathname.dir}/${filename.trim()}`\<close>\<close>
  "getFullFilename filename pathnameDir = pathnameDir @ ''/'' @ trim filename"

definition splitSql :: "env \<Rightarrow> string \<Rightarrow> jserror + string list" where
  "splitSql E statements =
     (case sqlifyAstify E statements of
        Inl ex \<Rightarrow> Inl ex
      | Inr sql \<Rightarrow> Inr (filter (\<lambda>line. length line > 0) (map trim (splitOn CHR '';'' sql))))"

record sqlStatementGroup =
  statements :: "string list"
  filename :: string

definition fetchSql :: "env \<Rightarrow> jsobject \<Rightarrow> event list \<Rightarrow> string \<Rightarrow> jserror + sqlStatementGroup" where
  "fetchSql E contextMap tr name =
     (case readFileSync E tr name of
        Inl ex \<Rightarrow> Inl ex
      | Inr fileContents \<Rightarrow>
          (let modifiedContents = replaceWithContext contextMap [Some fileContents] ! 0
           in (case splitSql E modifiedContents of
                 Inl ex \<Rightarrow> Inl ex
               | Inr stmts \<Rightarrow> Inr \<lparr>statements = stmts, filename = name\<rparr>)))"

fun fetchFiles :: "env \<Rightarrow> jsobject \<Rightarrow> event list \<Rightarrow> string \<Rightarrow> string list
    \<Rightarrow> jserror + sqlStatementGroup list" where
  \<comment> \<open>\<open>actualCommands.map((filename) => fetchSql(getFullFilename(filename, pathname)))\<close>,
      left to right; the first failure ends it\<close>
  "fetchFiles E contextMap tr pathnameDir [] = Inr []"
| "fetchFiles E contextMap tr pathnameDir (name # names) =
     (case fetchSql E contextMap tr (getFullFilename name pathnameDir) of
        Inl ex \<Rightarrow> Inl ex
      | Inr g \<Rightarrow>
          (case fetchFiles E contextMap tr pathnameDir names of
             Inl ex \<Rightarrow> Inl ex
           | Inr gs \<Rightarrow> Inr (g # gs)))"

definition sqlStatements :: "env \<Rightarrow> jsobject \<Rightarrow> event list \<Rightarrow> string \<Rightarrow> bool \<Rightarrow> string list
    \<Rightarrow> jserror + sqlStatementGroup list" where
  "sqlStatements E contextMap tr pathnameDir treatAsFiles actual =
     (if treatAsFiles then fetchFiles E contextMap tr pathnameDir actual
      else
        (let modifiedCommands = replaceWithContext contextMap (map Some actual)
         in (case splitSql E (joinWith '';'' modifiedCommands) of
               Inl ex \<Rightarrow> Inl ex
             | Inr stmts \<Rightarrow> Inr [\<lparr>statements = stmts, filename = ''raw input''\<rparr>])))"

definition statementCount :: "sqlStatementGroup list \<Rightarrow> nat" where
  "statementCount groups = foldl (\<lambda>total len. total + len) 0 (map (\<lambda>g. length (statements g)) groups)"

text \<open>
  The two nested loops. A failure comes back with the values of \<open>currentStatement\<close> and
  \<open>currentFilename\<close> at the time; no later statement is tried.
\<close>

fun executeStatements :: "env \<Rightarrow> string \<Rightarrow> string list \<Rightarrow> event list
    \<Rightarrow> (jserror \<times> string \<times> string) option \<times> event list" where
  "executeStatements E currentFilename [] tr = (None, tr)"
| "executeStatements E currentFilename (currentStatement # rest) tr =
     (case executeRawUnsafe E tr currentStatement of
        Some ex \<Rightarrow>
          (Some (ex, currentStatement, currentFilename), tr @ [ExecuteRawUnsafe currentStatement])
      | None \<Rightarrow>
          executeStatements E currentFilename rest (tr @ [ExecuteRawUnsafe currentStatement]))"

fun executeGroups :: "env \<Rightarrow> sqlStatementGroup list \<Rightarrow> event list
    \<Rightarrow> (jserror \<times> string \<times> string) option \<times> event list" where
  "executeGroups E [] tr = (None, tr)"
| "executeGroups E (sql # groups) tr =
     (case executeStatements E (filename sql) (statements sql) tr of
        (Some failure, tr') \<Rightarrow> (Some failure, tr')
      | (None, tr') \<Rightarrow> executeGroups E groups tr')"

definition annotate :: "jserror \<Rightarrow> string \<Rightarrow> string \<Rightarrow> jserror" where
  \<comment> \<open>the \<open>catch\<close> block\<close>
  "annotate ex currentStatement currentFilename =
     setMessage ex
       (''Error executing sql '' @ [CHR 0x22] @ currentStatement @ [CHR 0x22] @ '' from ''
          @ currentFilename @ '': '' @ message ex)"

definition runStatements :: "env \<Rightarrow> sqlStatementGroup list \<Rightarrow> event list
    \<Rightarrow> (jserror + unit) \<times> event list" where
  \<comment> \<open>\<open>try { loops } catch (ex) { annotate; throw ex } finally { await db.$disconnect() }\<close>;
      a failure of the \<open>finally\<close> block replaces the outcome of the \<open>try\<close>\<close>
  "runStatements E groups tr =
     (case executeGroups E groups tr of
        (outcome, tr') \<Rightarrow>
          (case disconnect E tr' of
             Some dex \<Rightarrow> (Inl dex, tr' @ [Disconnect])
           | None \<Rightarrow>
               (case outcome of
                  Some (ex, currentStatement, currentFilename) \<Rightarrow>
                    (Inl (annotate ex currentStatement currentFilename), tr' @ [Disconnect])
                | None \<Rightarrow> (Inr (), tr' @ [Disconnect]))))"

definition executeSql :: "env \<Rightarrow> addr \<Rightarrow> jsval \<Rightarrow> string \<Rightarrow> bool \<Rightarrow> world
    \<Rightarrow> (jserror + unit) \<times> world" where
  "executeSql E contextMap commands pathnameDir treatAsFiles w =
     (case actualCommands (toArray commands) of
        Inl ex \<Rightarrow> (Inl ex, w)
      | Inr actual \<Rightarrow>
          (case sqlStatements E (heap w contextMap) (trace w) pathnameDir treatAsFiles actual of
             Inl ex \<Rightarrow> (Inl ex, w)
           | Inr groups \<Rightarrow>
               if statementCount groups = 0 then (Inr (), w)
               else (case runStatements E groups (trace w) of
                       (r, tr') \<Rightarrow> (r, w\<lparr>trace := tr'\<rparr>))))"

section \<open>The scenario builders\<close>

definition invoke :: "env \<Rightarrow> jsval \<Rightarrow> jsval list \<Rightarrow> world \<Rightarrow> (jserror + jsval) \<times> world" where
  \<comment> \<open>\<open>await f(...args)\<close> for a value \<open>f\<close> of the caller\<close>
  "invoke E f args w =
     (case f of
        JFun n \<Rightarrow> callFunction E n args (emit (Invoked n args) w)
      | _ \<Rightarrow> (Inl (JsError RuntimeTypeError ''not a function''), w))"

definition testCallback :: "env \<Rightarrow> testClosure \<Rightarrow> world \<Rightarrow> (jserror + jsval) \<times> world" where
  \<comment> \<open>the \<open>async () => { ... }\<close> handed to \<open>it\<close>: setup outside the \<open>try\<close>, the test
      inside it, teardown in the \<open>finally\<close>\<close>
  "testCallback E c w =
     (case executeSql E (tcContextMap c) (tcSqlSetup c) (tcPathnameDir c) (tcTreatAsFiles c) w of
        (Inl ex, w1) \<Rightarrow> (Inl ex, w1)
      | (Inr _, w1) \<Rightarrow>
          (case invoke E (tcTestFunc c) [] w1 of
             (outcome, w2) \<Rightarrow>
               (case executeSql E (tcContextMap c) (tcSqlTeardown c) (tcPathnameDir c)
                       (tcTreatAsFiles c) w2 of
                  (Inl tex, w3) \<Rightarrow> (Inl tex, w3)
                | (Inr _, w3) \<Rightarrow> (outcome, w3))))"

definition registerTest :: "itKind \<Rightarrow> jsval \<Rightarrow> testClosure \<Rightarrow> world \<Rightarrow> (jserror + jsval) \<times> world" where
  \<comment> \<open>\<open>return it(testName, callback)\<close>; Jest's \<open>it\<close> records the test and returns \<open>undefined\<close>\<close>
  "registerTest it testName c w = (Inr JUndefined, emit (ItCalled it testName c) w)"

definition buildTestSqlScenario :: "env \<Rightarrow> itKind \<Rightarrow> string \<Rightarrow> bool \<Rightarrow> jsval list \<Rightarrow> world
    \<Rightarrow> (jserror + jsval) \<times> world" where
  "buildTestSqlScenario E it testPath treatAsFiles args w =
     (let pathname = pathParseDir E testPath in
      if length args = 5 then
        (let testName = args ! 0; providedMap = args ! 1; sqlSetup = args ! 2;
             sqlTeardown = args ! 3; testFunc = args ! 4
         in (case providedMap of
               JObj a \<Rightarrow>
                 if truthy (getProp (heap w a) ''describeBlockName'') then
                   registerTest it testName
                     \<lparr>tcContextMap = a, tcSqlSetup = sqlSetup, tcSqlTeardown = sqlTeardown,
                      tcTestFunc = testFunc, tcPathnameDir = pathname,
                      tcTreatAsFiles = treatAsFiles\<rparr> w
                 else
                   (case allocate (startingContext E ++ heap w a) w of
                      (contextMap, w') \<Rightarrow>
                        registerTest it testName
                          \<lparr>tcContextMap = contextMap, tcSqlSetup = sqlSetup,
                           tcSqlTeardown = sqlTeardown, tcTestFunc = testFunc,
                           tcPathnameDir = pathname, tcTreatAsFiles = treatAsFiles\<rparr> w')
             | JUndefined \<Rightarrow>
                 (Inl (JsError RuntimeTypeError ''Cannot read properties of undefined''), w)
             | JNull \<Rightarrow> (Inl (JsError RuntimeTypeError ''Cannot read properties of null''), w)
             | _ \<Rightarrow> (Inl (JsError OutsideModel []), w)))
      else if length args = 4 then
        (let testName = args ! 0; sqlSetup = args ! 1; sqlTeardown = args ! 2;
             testFunc = args ! 3
         in (case allocate (startingContext E) w of
               (contextMap, w') \<Rightarrow>
                 registerTest it testName
                   \<lparr>tcContextMap = contextMap, tcSqlSetup = sqlSetup,
                    tcSqlTeardown = sqlTeardown, tcTestFunc = testFunc,
                    tcPathnameDir = pathname, tcTreatAsFiles = treatAsFiles\<rparr> w'))
      else
        (Inl (JsError Constructed
                (''parameter mismatch in sql'' @ (if treatAsFiles then ''File'' else [])
                   @ ''Scenario(): '' @ jsonStringify E args)), w))"

definition hookCallback :: "env \<Rightarrow> hookClosure \<Rightarrow> world \<Rightarrow> (jserror + unit) \<times> world" where
  \<comment> \<open>the \<open>async () => { await executeSql(...) }\<close> handed to \<open>beforeAll\<close> and \<open>afterAll\<close>\<close>
  "hookCallback E h w = executeSql E (hcContextMap h) (hcSql h) (hcPathnameDir h) (hcTreatAsFiles h) w"

definition describeCallback :: "env \<Rightarrow> describeClosure \<Rightarrow> world \<Rightarrow> (jserror + jsval) \<times> world" where
  \<comment> \<open>the \<open>() => { beforeAll(...); afterAll(...); describeBlock(contextMap) }\<close> handed to
      \<open>describeFunc\<close>\<close>
  "describeCallback E c w =
     (let w1 = emit (BeforeAllCalled
                  \<lparr>hcContextMap = dcContextMap c, hcSql = dcSqlSetup c,
                   hcPathnameDir = dcPathnameDir c, hcTreatAsFiles = dcTreatAsFiles c\<rparr>) w;
          w2 = emit (AfterAllCalled
                  \<lparr>hcContextMap = dcContextMap c, hcSql = dcSqlTeardown c,
                   hcPathnameDir = dcPathnameDir c, hcTreatAsFiles = dcTreatAsFiles c\<rparr>) w1
      in (case invoke E (dcDescribeBlock c) [JObj (dcContextMap c)] w2 of
            (Inl ex, w3) \<Rightarrow> (Inl ex, w3)
          | (Inr _, w3) \<Rightarrow> (Inr JUndefined, w3)))"

definition registerDescribe :: "describeKind \<Rightarrow> jsval \<Rightarrow> describeClosure \<Rightarrow> world
    \<Rightarrow> (jserror + jsval) \<times> world" where
  \<comment> \<open>\<open>return describeFunc(describeBlockName, callback)\<close>\<close>
  "registerDescribe describeFunc name c w = (Inr JUndefined, emit (DescribeCalled describeFunc name c) w)"

definition buildDescribeSqlScenario :: "env \<Rightarrow> describeKind \<Rightarrow> string \<Rightarrow> bool \<Rightarrow> jsval list
    \<Rightarrow> world \<Rightarrow> (jserror + jsval) \<times> world" where
  \<comment> \<open>\<open>blockContext\<close> is built from the variable \<open>describeBlockName\<close> while it is declared
      but not yet assigned, so the property holds \<open>undefined\<close>; the assignment from
      \<open>args\<close> comes after it. Spreading \<open>undefined\<close> or \<open>null\<close> adds no property.\<close>
  "buildDescribeSqlScenario E describeFunc testPath treatAsFiles args w =
     (let pathname = pathParseDir E testPath;
          blockContext = [''describeBlockName'' \<mapsto> PUndefined]
      in
      if length args = 5 then
        (let describeBlockName = args ! 0; providedMap = args ! 1; sqlSetup = args ! 2;
             sqlTeardown = args ! 3; describeBlock = args ! 4
         in (case (case providedMap of
                     JObj a \<Rightarrow> Some (heap w a)
                   | JUndefined \<Rightarrow> Some Map.empty
                   | JNull \<Rightarrow> Some Map.empty
                   | _ \<Rightarrow> None) of
               None \<Rightarrow> (Inl (JsError OutsideModel []), w)
             | Some provided \<Rightarrow>
                 (case allocate (blockContext ++ startingContext E ++ provided) w of
                    (contextMap, w') \<Rightarrow>
                      registerDescribe describeFunc describeBlockName
                        \<lparr>dcContextMap = contextMap, dcSqlSetup = sqlSetup,
                         dcSqlTeardown = sqlTeardown, dcDescribeBlock = describeBlock,
                         dcPathnameDir = pathname, dcTreatAsFiles = treatAsFiles\<rparr> w')))
      else if length args = 4 then
        (let describeBlockName = args ! 0; sqlSetup = args ! 1; sqlTeardown = args ! 2;
             describeBlock = args ! 3
         in (case allocate (blockContext ++ startingContext E) w of
               (contextMap, w') \<Rightarrow>
                 registerDescribe describeFunc describeBlockName
                   \<lparr>dcContextMap = contextMap, dcSqlSetup = sqlSetup,
                    dcSqlTeardown = sqlTeardown, dcDescribeBlock = describeBlock,
                    dcPathnameDir = pathname, dcTreatAsFiles = treatAsFiles\<rparr> w'))
      else
        (Inl (JsError Constructed
                (''parameter mismatch in describeSql'' @ (if treatAsFiles then ''File'' else [])
                   @ ''Scenario(): '' @ jsonStringify E args)), w))"

section \<open>A concrete environment\<close>

text \<open>
  One choice of collaborators, on which the results below are run: a database that
  rejects the statement \<open>FAIL\<close> and accepts every other one, two SQL files, a parser that
  returns its input, a caller function \<open>0\<close> that returns, and caller functions that throw
  for every other number.
\<close>

definition demoEnv :: env where
  "demoEnv =
     \<lparr>processEnv = Map.empty,
      executeRawUnsafe = (\<lambda>tr s. if s = ''FAIL'' then Some (JsError (Foreign 7) ''no such table'') else None),
      disconnect = (\<lambda>tr. None),
      readFileSync = (\<lambda>tr name.
         if name = ''/tests/a.sql'' then Inr ''A1;A2''
         else if name = ''/tests/b.sql'' then Inr ''B1''
         else Inl (JsError (Foreign 2) ''ENOENT'')),
      sqlifyAstify = (\<lambda>text. Inr text),
      pathParseDir = (\<lambda>p. ''/tests''),
      jsonStringify = (\<lambda>args. ''[...]''),
      callFunction = (\<lambda>f args w.
         if f = 0 then (Inr JUndefined, w) else (Inl (JsError (Foreign 9) ''expected 1 to be 2''), w))\<rparr>"

definition demoWorld :: world where
  "demoWorld = \<lparr>heap = (\<lambda>a. Map.empty), nextAddr = 0, trace = []\<rparr>"

definition demoEnvLostConnection :: env where
  \<comment> \<open>the same collaborators, with a database whose \<open>$disconnect()\<close> rejects\<close>
  "demoEnvLostConnection =
     demoEnv\<lparr>disconnect := (\<lambda>tr. Some (JsError (Foreign 8) ''connection lost''))\<rparr>"

section \<open>Observations on a run\<close>

text \<open>
  The definitions of this section are not code of the repository; the results below are
  stated with them. \<open>allSucceed E tr ss\<close>: issued one after the other from the events
  \<open>tr\<close>, each statement of \<open>ss\<close> is accepted by the database. \<open>flatten\<close> lists the
  statements of all groups in the order of the two loops, each with the filename of its
  group, and \<open>runLabelled\<close> is the two loops as one loop over that list.
\<close>

fun allSucceed :: "env \<Rightarrow> event list \<Rightarrow> string list \<Rightarrow> bool" where
  "allSucceed E tr [] = True"
| "allSucceed E tr (s # ss) =
     (executeRawUnsafe E tr s = None \<and> allSucceed E (tr @ [ExecuteRawUnsafe s]) ss)"

definition flatten :: "sqlStatementGroup list \<Rightarrow> (string \<times> string) list" where
  "flatten groups = concat (map (\<lambda>g. map (\<lambda>s. (s, filename g)) (statements g)) groups)"

fun runLabelled :: "env \<Rightarrow> (string \<times> string) list \<Rightarrow> event list
    \<Rightarrow> (jserror \<times> string \<times> string) option \<times> event list" where
  "runLabelled E [] tr = (None, tr)"
| "runLabelled E ((s, f) # rest) tr =
     (case executeRawUnsafe E tr s of
        Some ex \<Rightarrow> (Some (ex, s, f), tr @ [ExecuteRawUnsafe s])
      | None \<Rightarrow> runLabelled E rest (tr @ [ExecuteRawUnsafe s]))"

definition released :: "env \<Rightarrow> event list \<Rightarrow> jserror + unit \<Rightarrow> jserror + unit" where
  \<comment> \<open>the outcome of a \<open>try\<close> block after the \<open>finally\<close> block has called \<open>db.$disconnect()\<close>\<close>
  "released E tr r = (case disconnect E tr of Some dex \<Rightarrow> Inl dex | None \<Rightarrow> r)"

definition blankEntry :: "jsval \<Rightarrow> bool" where
  \<comment> \<open>\<open>null\<close>, \<open>undefined\<close>, the empty string or a string of white space only\<close>
  "blankEntry e \<longleftrightarrow>
     (case e of
        JUndefined \<Rightarrow> True
      | JNull \<Rightarrow> True
      | JStr s \<Rightarrow> list_all isWhiteSpace s
      | _ \<Rightarrow> False)"

section \<open>Properties of template substitution\<close>

lemma notWordChar_brace: "\<not> isWordChar CHR ''}''"
  by (simp add: isWordChar_def)

lemma matchToken_iff:
  "matchToken s = Some (key, rest) \<longleftrightarrow>
     key \<noteq> [] \<and> (\<forall>c\<in>set key. isWordChar c) \<and> s = CHR ''{'' # key @ CHR ''}'' # rest"
proof
  assume m: "matchToken s = Some (key, rest)"
  then obtain cs where s: "s = CHR ''{'' # cs"
    by (auto simp: matchToken_def split: list.splits if_splits)
  from m s have k: "key = takeWhile isWordChar cs" and ne: "key \<noteq> []"
    and d: "dropWhile isWordChar cs = CHR ''}'' # rest"
    by (auto simp: matchToken_def Let_def split: list.splits if_splits)
  have "cs = takeWhile isWordChar cs @ dropWhile isWordChar cs" by simp
  with k d have "cs = key @ CHR ''}'' # rest" by simp
  moreover from k have "\<forall>c\<in>set key. isWordChar c" by (auto dest: set_takeWhileD)
  ultimately show "key \<noteq> [] \<and> (\<forall>c\<in>set key. isWordChar c) \<and> s = CHR ''{'' # key @ CHR ''}'' # rest"
    using s ne by simp
next
  assume a: "key \<noteq> [] \<and> (\<forall>c\<in>set key. isWordChar c) \<and> s = CHR ''{'' # key @ CHR ''}'' # rest"
  then have t: "takeWhile isWordChar (key @ CHR ''}'' # rest) = key"
    by (simp add: notWordChar_brace)
  from a have d: "dropWhile isWordChar (key @ CHR ''}'' # rest) = CHR ''}'' # rest"
    by (simp add: notWordChar_brace)
  from a t d show "matchToken s = Some (key, rest)"
    by (simp add: matchToken_def Let_def)
qed

lemma replaceLine_Some: "replaceLine ctx (Some s) = replaceAllTokens (contextValue ctx) s"
  by (simp add: replaceLine_def)

lemma replaceLine_token:
  assumes "key \<noteq> []" and "\<forall>c\<in>set key. isWordChar c"
  shows "replaceLine ctx (Some (CHR ''{'' # key @ CHR ''}'' # rest)) =
           contextValue ctx key @ replaceLine ctx (Some rest)"
proof -
  from assms have "matchToken (CHR ''{'' # key @ CHR ''}'' # rest) = Some (key, rest)"
    by (simp add: matchToken_iff)
  then show ?thesis by (simp add: replaceLine_Some)
qed

lemma replaceLine_other:
  assumes "\<forall>key rest. key \<noteq> [] \<and> (\<forall>k\<in>set key. isWordChar k) \<longrightarrow> c # cs \<noteq> CHR ''{'' # key @ CHR ''}'' # rest"
  shows "replaceLine ctx (Some (c # cs)) = c # replaceLine ctx (Some cs)"
proof -
  have "matchToken (c # cs) = None"
  proof (cases "matchToken (c # cs)")
    case None
    then show ?thesis .
  next
    case (Some kr)
    obtain key rest where "kr = (key, rest)" by (cases kr)
    with Some have "matchToken (c # cs) = Some (key, rest)" by simp
    then have "key \<noteq> [] \<and> (\<forall>k\<in>set key. isWordChar k) \<and>
        c # cs = CHR ''{'' # key @ CHR ''}'' # rest"
      by (rule matchToken_iff[THEN iffD1])
    with assms show ?thesis by blast
  qed
  then show ?thesis by (simp add: replaceLine_Some)
qed

lemma contextValue_cases:
  "contextValue ctx key =
     (case ctx key of
        Some (PStr v) \<Rightarrow> if v \<noteq> [] then v else CHR ''{'' # key @ ''}''
      | Some PUndefined \<Rightarrow> CHR ''{'' # key @ ''}''
      | None \<Rightarrow>
          (case objectPrototype key of
             None \<Rightarrow> CHR ''{'' # key @ ''}''
           | Some inherited \<Rightarrow> readToString inherited))"
proof -
  have "truthy inherited" if "objectPrototype key = Some inherited" for inherited
    using that by (auto simp: objectPrototype_def split: if_splits)
  then show ?thesis
    by (simp add: contextValue_def getProp_def split: option.splits propval.splits)
qed

lemma replace_example:
  "replaceWithContext [''A'' \<mapsto> PStr ''1''] [Some ''select {A}, {B}''] = [''select 1, {B}'']"
  by (simp add: replaceWithContext_def replaceLine_def matchToken_def contextValue_def
        getProp_def objectPrototype_def isWordChar_def)

lemma replaceLine_equations:
  "replaceWithContext ctx lines = map (replaceLine ctx) lines \<and>
   replaceLine ctx None = [] \<and>
   replaceLine ctx (Some []) = [] \<and>
   (\<forall>key rest. key \<noteq> [] \<and> (\<forall>c\<in>set key. isWordChar c) \<longrightarrow>
      replaceLine ctx (Some (CHR ''{'' # key @ CHR ''}'' # rest)) =
        (case ctx key of
           Some (PStr v) \<Rightarrow> if v \<noteq> [] then v else CHR ''{'' # key @ ''}''
         | Some PUndefined \<Rightarrow> CHR ''{'' # key @ ''}''
         | None \<Rightarrow>
             (case objectPrototype key of
                None \<Rightarrow> CHR ''{'' # key @ ''}''
              | Some inherited \<Rightarrow> readToString inherited)) @ replaceLine ctx (Some rest)) \<and>
   (\<forall>c cs. (\<forall>key rest. key \<noteq> [] \<and> (\<forall>k\<in>set key. isWordChar k) \<longrightarrow>
               c # cs \<noteq> CHR ''{'' # key @ CHR ''}'' # rest) \<longrightarrow>
      replaceLine ctx (Some (c # cs)) = c # replaceLine ctx (Some cs))"
proof (intro conjI allI impI)
  show "replaceWithContext ctx lines = map (replaceLine ctx) lines"
    by (simp add: replaceWithContext_def)
  show "replaceLine ctx None = []" by (simp add: replaceLine_def)
  show "replaceLine ctx (Some []) = []" by (simp add: replaceLine_def)
next
  fix key rest
  assume "key \<noteq> [] \<and> (\<forall>c\<in>set key. isWordChar c)"
  then show "replaceLine ctx (Some (CHR ''{'' # key @ CHR ''}'' # rest)) =
        (case ctx key of
           Some (PStr v) \<Rightarrow> if v \<noteq> [] then v else CHR ''{'' # key @ ''}''
         | Some PUndefined \<Rightarrow> CHR ''{'' # key @ ''}''
         | None \<Rightarrow>
             (case objectPrototype key of
                None \<Rightarrow> CHR ''{'' # key @ ''}''
              | Some inherited \<Rightarrow> readToString inherited)) @ replaceLine ctx (Some rest)"
    using replaceLine_token[of key ctx rest] by (simp add: contextValue_cases)
next
  fix c cs
  assume "\<forall>key rest. key \<noteq> [] \<and> (\<forall>k\<in>set key. isWordChar k) \<longrightarrow>
               c # cs \<noteq> CHR ''{'' # key @ CHR ''}'' # rest"
  then show "replaceLine ctx (Some (c # cs)) = c # replaceLine ctx (Some cs)"
    by (rule replaceLine_other)
qed

text \<open>
  Claim C3, on the line \<open>select {A}, {constructor}\<close> and the mapping \<open>{A: "1"}\<close>. The
  mapping has no key \<open>constructor\<close>, and the claim leaves the token \<open>{constructor}\<close> as
  it is. The code reads \<open>contextMap[key]\<close>, which finds the function \<open>Object\<close> that every
  plain object inherits, and puts its text in the place of the token. The same happens
  for \<open>{toString}\<close>, with any mapping that does not have the key itself. For the keys
  that nothing is inherited for, such as \<open>B\<close>, the token stays, as the claim and the
  comment above \<open>replaceWithContext\<close> say.
\<close>

theorem inherited_key_substituted:
  "[''A'' \<mapsto> PStr ''1''] ''constructor'' = None \<and>
   replaceWithContext [''A'' \<mapsto> PStr ''1''] [Some ''select {A}, {constructor}''] =
     [''select 1, function Object() { [native code] }''] \<and>
   replaceWithContext [''A'' \<mapsto> PStr ''1''] [Some ''select {A}, {constructor}''] \<noteq>
     [''select 1, {constructor}''] \<and>
   replaceWithContext Map.empty [Some ''{toString}''] = [''function toString() { [native code] }''] \<and>
   replaceWithContext [''A'' \<mapsto> PStr ''1''] [Some ''select {A}, {B}''] = [''select 1, {B}'']"
  by (simp add: replaceWithContext_def replaceLine_def matchToken_def contextValue_def
        getProp_def objectPrototype_def isWordChar_def)

section \<open>Properties of the SQL executor\<close>

lemma runLabelled_append:
  "runLabelled E (xs @ ys) tr =
     (case runLabelled E xs tr of
        (Some failure, tr') \<Rightarrow> (Some failure, tr')
      | (None, tr') \<Rightarrow> runLabelled E ys tr')"
  by (induction xs arbitrary: tr) (auto split: option.splits)

lemma executeStatements_labelled:
  "executeStatements E f ss tr = runLabelled E (map (\<lambda>s. (s, f)) ss) tr"
  by (induction ss arbitrary: tr) (auto split: option.splits)

lemma executeGroups_labelled: "executeGroups E gs tr = runLabelled E (flatten gs) tr"
  by (induction gs arbitrary: tr)
     (auto simp: flatten_def runLabelled_append executeStatements_labelled split: option.splits prod.splits)

lemma map_fst_flatten: "map fst (flatten gs) = concat (map statements gs)"
  by (induction gs) (auto simp: flatten_def comp_def)

lemma allSucceed_append:
  "allSucceed E tr (xs @ ys) \<longleftrightarrow>
     allSucceed E tr xs \<and> allSucceed E (tr @ map ExecuteRawUnsafe xs) ys"
  by (induction xs arbitrary: tr) auto

lemma runLabelled_ok:
  "allSucceed E tr (map fst xs) \<Longrightarrow>
     runLabelled E xs tr = (None, tr @ map ExecuteRawUnsafe (map fst xs))"
  by (induction xs arbitrary: tr) auto

lemma runLabelled_fail:
  "allSucceed E tr (map fst pre) \<Longrightarrow>
   executeRawUnsafe E (tr @ map ExecuteRawUnsafe (map fst pre)) s = Some ex \<Longrightarrow>
     runLabelled E (pre @ (s, f) # post) tr =
       (Some (ex, s, f), tr @ map ExecuteRawUnsafe (map fst pre) @ [ExecuteRawUnsafe s])"
  by (induction pre arbitrary: tr) auto

lemma runLabelled_cases:
  "allSucceed E tr (map fst xs) \<or>
   (\<exists>pre s f post ex. xs = pre @ (s, f) # post \<and> allSucceed E tr (map fst pre) \<and>
      executeRawUnsafe E (tr @ map ExecuteRawUnsafe (map fst pre)) s = Some ex)"
proof (induction xs arbitrary: tr)
  case Nil
  then show ?case by simp
next
  case (Cons x xs)
  obtain s f where x: "x = (s, f)" by (cases x)
  show ?case
  proof (cases "executeRawUnsafe E tr s")
    case (Some ex)
    then have "x # xs = [] @ (s, f) # xs \<and> allSucceed E tr (map fst []) \<and>
      executeRawUnsafe E (tr @ map ExecuteRawUnsafe (map fst [])) s = Some ex"
      using x by simp
    then show ?thesis by blast
  next
    case None
    from Cons.IH[of "tr @ [ExecuteRawUnsafe s]"] show ?thesis
    proof
      assume "allSucceed E (tr @ [ExecuteRawUnsafe s]) (map fst xs)"
      then show ?thesis using None x by simp
    next
      assume "\<exists>pre s' f' post ex. xs = pre @ (s', f') # post \<and>
        allSucceed E (tr @ [ExecuteRawUnsafe s]) (map fst pre) \<and>
        executeRawUnsafe E ((tr @ [ExecuteRawUnsafe s]) @ map ExecuteRawUnsafe (map fst pre)) s' = Some ex"
      then obtain pre s' f' post ex where
        a: "xs = pre @ (s', f') # post"
        and b: "allSucceed E (tr @ [ExecuteRawUnsafe s]) (map fst pre)"
        and c: "executeRawUnsafe E ((tr @ [ExecuteRawUnsafe s]) @ map ExecuteRawUnsafe (map fst pre)) s' = Some ex"
        by blast
      have "x # xs = ((s, f) # pre) @ (s', f') # post \<and>
        allSucceed E tr (map fst ((s, f) # pre)) \<and>
        executeRawUnsafe E (tr @ map ExecuteRawUnsafe (map fst ((s, f) # pre))) s' = Some ex"
        using a b c None x by simp
      then show ?thesis by blast
    qed
  qed
qed

lemma statementCount_flat: "statementCount gs = length (concat (map statements gs))"
proof -
  have "foldl (\<lambda>total len. total + len) a (map (\<lambda>g. length (statements g)) gs)
      = a + length (concat (map statements gs))" for a
    by (induction gs arbitrary: a) auto
  then show ?thesis by (simp add: statementCount_def)
qed

lemma statementCount_flatten: "statementCount gs = length (flatten gs)"
  using map_fst_flatten[of gs] statementCount_flat[of gs]
  by (metis length_map)

lemma runStatements_ok:
  assumes "allSucceed E tr (concat (map statements gs))"
  shows "runStatements E gs tr =
           (released E (tr @ map ExecuteRawUnsafe (concat (map statements gs))) (Inr ()),
            tr @ map ExecuteRawUnsafe (concat (map statements gs)) @ [Disconnect])"
proof -
  from assms have "allSucceed E tr (map fst (flatten gs))" by (simp add: map_fst_flatten)
  then have "executeGroups E gs tr = (None, tr @ map ExecuteRawUnsafe (concat (map statements gs)))"
    by (simp add: executeGroups_labelled runLabelled_ok map_fst_flatten)
  then show ?thesis by (simp add: runStatements_def released_def split: option.splits)
qed

lemma runStatements_fail:
  assumes "flatten gs = pre @ (s, f) # post"
    and "allSucceed E tr (map fst pre)"
    and "executeRawUnsafe E (tr @ map ExecuteRawUnsafe (map fst pre)) s = Some ex"
  shows "runStatements E gs tr =
           (released E (tr @ map ExecuteRawUnsafe (map fst pre) @ [ExecuteRawUnsafe s])
              (Inl (annotate ex s f)),
            tr @ map ExecuteRawUnsafe (map fst pre) @ [ExecuteRawUnsafe s, Disconnect])"
proof -
  from assms have "executeGroups E gs tr =
      (Some (ex, s, f), tr @ map ExecuteRawUnsafe (map fst pre) @ [ExecuteRawUnsafe s])"
    by (simp add: executeGroups_labelled runLabelled_fail)
  then show ?thesis by (simp add: runStatements_def released_def split: option.splits)
qed

lemma executeSql_run:
  assumes "actualCommands (toArray commands) = Inr actual"
    and "sqlStatements E (heap w contextMap) (trace w) pathnameDir treatAsFiles actual = Inr groups"
    and "flatten groups \<noteq> []"
  shows "executeSql E contextMap commands pathnameDir treatAsFiles w =
           (fst (runStatements E groups (trace w)),
            w\<lparr>trace := snd (runStatements E groups (trace w))\<rparr>)"
  using assms by (simp add: executeSql_def statementCount_flatten split: prod.splits)

lemma executeSql_nothing:
  assumes "actualCommands (toArray commands) = Inr actual"
    and "sqlStatements E (heap w contextMap) (trace w) pathnameDir treatAsFiles actual = Inr groups"
    and "flatten groups = []"
  shows "executeSql E contextMap commands pathnameDir treatAsFiles w = (Inr (), w)"
  using assms by (simp add: executeSql_def statementCount_flatten)

lemma fetchSql_filename: "fetchSql E ctx tr name = Inr g \<Longrightarrow> filename g = name"
  by (auto simp: fetchSql_def Let_def split: sum.splits)

lemma fetchFiles_groups:
  "fetchFiles E ctx tr pathnameDir names = Inr gs \<Longrightarrow>
     map (\<lambda>name. fetchSql E ctx tr (getFullFilename name pathnameDir)) names = map Inr gs"
proof (induction names arbitrary: gs)
  case Nil
  then show ?case by simp
next
  case (Cons n ns)
  from Cons.prems obtain g gs' where
    g: "fetchSql E ctx tr (getFullFilename n pathnameDir) = Inr g"
    and gs': "fetchFiles E ctx tr pathnameDir ns = Inr gs'"
    and gs: "gs = g # gs'"
    by (auto split: sum.splits)
  from Cons.IH[OF gs'] g gs show ?case by simp
qed

lemma fetchFiles_filenames:
  assumes "fetchFiles E ctx tr pathnameDir names = Inr gs"
  shows "map filename gs = map (\<lambda>name. getFullFilename name pathnameDir) names"
proof -
  have "length gs = length names"
    using fetchFiles_groups[OF assms] by (metis length_map)
  moreover have "filename (gs ! i) = getFullFilename (names ! i) pathnameDir"
    if "i < length names" for i
  proof -
    from fetchFiles_groups[OF assms] that \<open>length gs = length names\<close>
    have "fetchSql E ctx tr (getFullFilename (names ! i) pathnameDir) = Inr (gs ! i)"
      by (metis nth_map)
    then show ?thesis by (rule fetchSql_filename)
  qed
  ultimately show ?thesis by (simp add: list_eq_iff_nth_eq)
qed

lemma group_label:
  assumes "sqlStatements E ctx tr pathnameDir treatAsFiles actual = Inr groups"
    and "(s, f) \<in> set (flatten groups)"
  shows "if treatAsFiles then f \<in> (\<lambda>name. getFullFilename name pathnameDir) ` set actual
         else f = ''raw input''"
proof (cases treatAsFiles)
  case False
  with assms show ?thesis
    by (auto simp: sqlStatements_def Let_def flatten_def split: sum.splits)
next
  case True
  with assms(1) have "map filename groups = map (\<lambda>name. getFullFilename name pathnameDir) actual"
    by (simp add: sqlStatements_def fetchFiles_filenames)
  then have "filename ` set groups = (\<lambda>name. getFullFilename name pathnameDir) ` set actual"
    by (metis set_map)
  moreover from assms(2) have "f \<in> filename ` set groups"
    by (auto simp: flatten_def)
  ultimately show ?thesis using True by simp
qed

lemma allSucceed_butlast: "allSucceed E tr xs \<Longrightarrow> allSucceed E tr (butlast xs)"
proof (cases "xs = []")
  case True
  then show ?thesis by simp
next
  case False
  assume "allSucceed E tr xs"
  with False have "allSucceed E tr (butlast xs @ [last xs])" by simp
  then show ?thesis by (simp only: allSucceed_append)
qed

lemma runStatements_order:
  "\<exists>done rest.
     concat (map statements gs) = done @ rest \<and>
     snd (runStatements E gs tr) = tr @ map ExecuteRawUnsafe done @ [Disconnect] \<and>
     allSucceed E tr (butlast done) \<and>
     (rest \<noteq> [] \<longrightarrow>
        (\<exists>ex. executeRawUnsafe E (tr @ map ExecuteRawUnsafe (butlast done)) (last done) = Some ex)) \<and>
     (concat (map statements gs) \<noteq> [] \<longrightarrow> done \<noteq> [])"
proof -
  from runLabelled_cases[of E tr "flatten gs"] show ?thesis
  proof
    assume "allSucceed E tr (map fst (flatten gs))"
    then have ok: "allSucceed E tr (concat (map statements gs))" by (simp add: map_fst_flatten)
    have "concat (map statements gs) = concat (map statements gs) @ [] \<and>
      snd (runStatements E gs tr) = tr @ map ExecuteRawUnsafe (concat (map statements gs)) @ [Disconnect] \<and>
      allSucceed E tr (butlast (concat (map statements gs))) \<and>
      (([]::string list) \<noteq> [] \<longrightarrow>
        (\<exists>ex. executeRawUnsafe E (tr @ map ExecuteRawUnsafe (butlast (concat (map statements gs))))
           (last (concat (map statements gs))) = Some ex)) \<and>
      (concat (map statements gs) \<noteq> [] \<longrightarrow> concat (map statements gs) \<noteq> [])"
      using ok by (simp add: runStatements_ok allSucceed_butlast)
    then show ?thesis by blast
  next
    assume "\<exists>pre s f post ex. flatten gs = pre @ (s, f) # post \<and> allSucceed E tr (map fst pre) \<and>
      executeRawUnsafe E (tr @ map ExecuteRawUnsafe (map fst pre)) s = Some ex"
    then obtain pre s f post ex where
      fl: "flatten gs = pre @ (s, f) # post"
      and ok: "allSucceed E tr (map fst pre)"
      and ex: "executeRawUnsafe E (tr @ map ExecuteRawUnsafe (map fst pre)) s = Some ex"
      by blast
    from fl have "map fst (flatten gs) = map fst pre @ s # map fst post" by simp
    then have c: "concat (map statements gs) = (map fst pre @ [s]) @ map fst post"
      by (simp add: map_fst_flatten)
    have "concat (map statements gs) = (map fst pre @ [s]) @ map fst post \<and>
      snd (runStatements E gs tr) = tr @ map ExecuteRawUnsafe (map fst pre @ [s]) @ [Disconnect] \<and>
      allSucceed E tr (butlast (map fst pre @ [s])) \<and>
      (map fst post \<noteq> [] \<longrightarrow>
        (\<exists>ex. executeRawUnsafe E (tr @ map ExecuteRawUnsafe (butlast (map fst pre @ [s])))
           (last (map fst pre @ [s])) = Some ex)) \<and>
      (concat (map statements gs) \<noteq> [] \<longrightarrow> map fst pre @ [s] \<noteq> [])"
      using c ok ex runStatements_fail[OF fl ok ex] by simp
    then show ?thesis by blast
  qed
qed

lemma count_list_issued: "count_list (map ExecuteRawUnsafe ss) Disconnect = 0"
  by (induction ss) auto

lemma count_list_append: "count_list (xs @ ys) x = count_list xs x + count_list ys x"
  by (induction xs) auto

lemma demo_raw_groups:
  "sqlStatements demoEnv (heap demoWorld 0) (trace demoWorld) ''/tests'' False [''A1'', ''A2'']
     = Inr [\<lparr>statements = [''A1'', ''A2''], filename = ''raw input''\<rparr>]"
  by (simp add: sqlStatements_def replaceWithContext_def replaceLine_def matchToken_def
        splitSql_def demoEnv_def trim_def isWhiteSpace_def)

lemma trim_empty_iff: "trim s = [] \<longleftrightarrow> (\<forall>c\<in>set s. isWhiteSpace c)"
proof
  assume "trim s = []"
  then have "dropWhile isWhiteSpace (rev (dropWhile isWhiteSpace s)) = []"
    by (simp add: trim_def)
  then have all: "\<forall>c\<in>set (dropWhile isWhiteSpace s). isWhiteSpace c"
    by (simp add: dropWhile_eq_Nil_conv)
  have "dropWhile isWhiteSpace s = []"
  proof (rule ccontr)
    assume ne: "dropWhile isWhiteSpace s \<noteq> []"
    then have "\<not> isWhiteSpace (hd (dropWhile isWhiteSpace s))" by (rule hd_dropWhile)
    moreover from ne have "hd (dropWhile isWhiteSpace s) \<in> set (dropWhile isWhiteSpace s)"
      by (rule hd_in_set)
    ultimately show False using all by blast
  qed
  then show "\<forall>c\<in>set s. isWhiteSpace c" by (simp add: dropWhile_eq_Nil_conv)
next
  assume "\<forall>c\<in>set s. isWhiteSpace c"
  then have "dropWhile isWhiteSpace s = []" by (simp only: dropWhile_eq_Nil_conv)
  then show "trim s = []" by (simp only: trim_def rev.simps dropWhile.simps)
qed

lemma nonBlank_blank: "blankEntry e \<Longrightarrow> nonBlank e = Inr None"
  by (cases e) (auto simp: blankEntry_def trim_empty_iff list_all_iff)

lemma nonBlank_string:
  "\<not> blankEntry (JStr s) \<Longrightarrow> nonBlank (JStr s) = Inr (Some s)"
  by (auto simp: blankEntry_def trim_empty_iff list_all_iff)

lemma actualCommands_append:
  "actualCommands (xs @ ys) =
     (case actualCommands xs of
        Inl ex \<Rightarrow> Inl ex
      | Inr kept \<Rightarrow> (case actualCommands ys of Inl ex \<Rightarrow> Inl ex | Inr kept' \<Rightarrow> Inr (kept @ kept')))"
  by (induction xs) (auto split: sum.splits option.splits)

lemma actualCommands_drop_blank:
  assumes "blankEntry e"
  shows "actualCommands (xs @ e # ys) = actualCommands (xs @ ys)"
proof -
  from assms have "actualCommands (e # ys) = actualCommands ys"
    by (simp add: nonBlank_blank split: sum.splits)
  then show ?thesis by (simp only: actualCommands_append)
qed

lemma actualCommands_strings:
  "actualCommands (map JStr ss) = Inr (filter (\<lambda>s. \<not> list_all isWhiteSpace s) ss)"
proof (induction ss)
  case Nil
  then show ?case by simp
next
  case (Cons s ss)
  show ?case
  proof (cases "blankEntry (JStr s)")
    case True
    then have "list_all isWhiteSpace s" by (simp add: blankEntry_def)
    with Cons True show ?thesis by (simp add: nonBlank_blank del: nonBlank.simps)
  next
    case False
    then have "\<not> list_all isWhiteSpace s" by (simp add: blankEntry_def)
    with Cons False show ?thesis by (simp add: nonBlank_string del: nonBlank.simps)
  qed
qed

lemma executeSql_actual:
  "actualCommands (toArray commands) = actualCommands (toArray commands') \<Longrightarrow>
   executeSql E c commands d f w = executeSql E c commands' d f w"
  by (simp add: executeSql_def)

lemma executeSql_release_fails:
  assumes "actualCommands (toArray commands) = Inr actual"
    and "sqlStatements E (heap w contextMap) (trace w) pathnameDir treatAsFiles actual = Inr groups"
    and "flatten groups \<noteq> []"
    and "disconnect E (butlast (snd (runStatements E groups (trace w)))) = Some dex"
  shows "fst (executeSql E contextMap commands pathnameDir treatAsFiles w) = Inl dex"
proof -
  obtain outcome tr' where eg: "executeGroups E groups (trace w) = (outcome, tr')"
    by (cases "executeGroups E groups (trace w)")
  then have "snd (runStatements E groups (trace w)) = tr' @ [Disconnect]"
    by (simp add: runStatements_def split: option.splits prod.splits)
  with assms(4) have "disconnect E tr' = Some dex" by simp
  with eg have "fst (runStatements E groups (trace w)) = Inl dex"
    by (simp add: runStatements_def)
  with executeSql_run[OF assms(1,2,3)] show ?thesis by simp
qed

text \<open>
  Claim C10. When the groups have been built, the executor adds events to the trace and
  takes none away, and among the added events \<open>db.$disconnect()\<close> occurs once if there is
  a statement to run, whether or not a statement fails, and does not occur if there is
  none.
\<close>

theorem disconnect_count:
  assumes "actualCommands (toArray commands) = Inr actual"
    and "sqlStatements E (heap w contextMap) (trace w) pathnameDir treatAsFiles actual = Inr groups"
  shows "\<exists>evs. trace (snd (executeSql E contextMap commands pathnameDir treatAsFiles w))
                 = trace w @ evs \<and>
               count_list evs Disconnect = (if statementCount groups = 0 then 0 else 1)"
proof (cases "flatten groups = []")
  case True
  with assms have "executeSql E contextMap commands pathnameDir treatAsFiles w = (Inr (), w)"
    by (rule executeSql_nothing)
  with True show ?thesis by (simp add: statementCount_flatten)
next
  case False
  from runStatements_order[of groups E "trace w"] obtain issued where
    "snd (runStatements E groups (trace w)) = trace w @ map ExecuteRawUnsafe issued @ [Disconnect]"
    by blast
  with executeSql_run[OF assms False]
  have "trace (snd (executeSql E contextMap commands pathnameDir treatAsFiles w))
          = trace w @ (map ExecuteRawUnsafe issued @ [Disconnect])"
    by simp
  moreover have "count_list (map ExecuteRawUnsafe issued @ [Disconnect]) Disconnect = 1"
    by (simp add: count_list_append count_list_issued)
  ultimately show ?thesis using False by (auto simp: statementCount_flatten)
qed

theorem disconnect_count_witness:
  "\<exists>evs. trace (snd (executeSql demoEnv 0 (JArr [JStr ''A1'', JStr ''A2'']) ''/tests'' False demoWorld))
            = trace demoWorld @ evs \<and>
          count_list evs Disconnect = 1"
proof -
  have a: "actualCommands (toArray (JArr [JStr ''A1'', JStr ''A2''])) = Inr [''A1'', ''A2'']"
    by (simp add: trim_def isWhiteSpace_def)
  from disconnect_count[OF a demo_raw_groups] show ?thesis
    by (simp add: statementCount_def)
qed

text \<open>
  Claim C8. An entry that is \<open>null\<close>, \<open>undefined\<close>, empty or white space only is dropped
  by the filter: the executor does the same with and without it, and an array of strings
  is reduced to its strings that have a character other than white space. If the groups
  are built and hold no statement, the executor returns normally and leaves the world as
  it was, so it calls neither \<open>db.$executeRawUnsafe\<close> nor \<open>db.$disconnect\<close>. With files,
  that is the case whenever no entry is left. With raw SQL and no entry left, the empty
  string still goes to the parser, and it is the case when the parser returns the empty
  string for it.
\<close>

theorem blanks_discarded_and_nothing_to_do:
  "(\<forall>xs e ys. blankEntry e \<longrightarrow>
      actualCommands (xs @ e # ys) = actualCommands (xs @ ys) \<and>
      executeSql E c (JArr (xs @ e # ys)) d f w = executeSql E c (JArr (xs @ ys)) d f w) \<and>
   (\<forall>e. blankEntry e \<longrightarrow> executeSql E c e d f w = executeSql E c (JArr []) d f w) \<and>
   (\<forall>ss. actualCommands (map JStr ss) = Inr (filter (\<lambda>s. \<not> list_all isWhiteSpace s) ss)) \<and>
   (\<forall>commands actual groups.
      actualCommands (toArray commands) = Inr actual \<and>
      sqlStatements E (heap w c) (trace w) d f actual = Inr groups \<and>
      statementCount groups = 0 \<longrightarrow>
        executeSql E c commands d f w = (Inr (), w)) \<and>
   (\<forall>groups. statementCount groups = 0 \<longleftrightarrow> (\<forall>g\<in>set groups. statements g = [])) \<and>
   (\<forall>commands. actualCommands (toArray commands) = Inr [] \<longrightarrow>
      executeSql E c commands d True w = (Inr (), w)) \<and>
   (\<forall>commands. actualCommands (toArray commands) = Inr [] \<and> sqlifyAstify E [] = Inr [] \<longrightarrow>
      executeSql E c commands d False w = (Inr (), w))"
proof (intro conjI allI impI)
  fix xs e ys
  assume b: "blankEntry e"
  then show "actualCommands (xs @ e # ys) = actualCommands (xs @ ys)"
    by (rule actualCommands_drop_blank)
  then show "executeSql E c (JArr (xs @ e # ys)) d f w = executeSql E c (JArr (xs @ ys)) d f w"
    by (simp add: executeSql_actual)
next
  fix e
  assume b: "blankEntry e"
  then have "toArray e = [e]" by (cases e) (simp_all add: blankEntry_def)
  with b have "actualCommands (toArray e) = actualCommands (toArray (JArr []))"
    using actualCommands_drop_blank[of e "[]" "[]"] by simp
  then show "executeSql E c e d f w = executeSql E c (JArr []) d f w"
    by (rule executeSql_actual)
next
  fix ss
  show "actualCommands (map JStr ss) = Inr (filter (\<lambda>s. \<not> list_all isWhiteSpace s) ss)"
    by (rule actualCommands_strings)
next
  fix commands actual groups
  assume "actualCommands (toArray commands) = Inr actual \<and>
      sqlStatements E (heap w c) (trace w) d f actual = Inr groups \<and>
      statementCount groups = 0"
  then show "executeSql E c commands d f w = (Inr (), w)"
    by (simp add: executeSql_def)
next
  fix groups
  show "statementCount groups = 0 \<longleftrightarrow> (\<forall>g\<in>set groups. statements g = [])"
    by (simp add: statementCount_flat)
next
  fix commands
  assume "actualCommands (toArray commands) = Inr []"
  then show "executeSql E c commands d True w = (Inr (), w)"
    by (simp add: executeSql_def sqlStatements_def statementCount_def)
next
  fix commands
  assume "actualCommands (toArray commands) = Inr [] \<and> sqlifyAstify E [] = Inr []"
  then show "executeSql E c commands d False w = (Inr (), w)"
    by (simp add: executeSql_def sqlStatements_def replaceWithContext_def splitSql_def
          statementCount_def trim_def)
qed

theorem blanks_discarded_and_nothing_to_do_witness:
  "blankEntry (JStr '' '') \<and>
   executeSql demoEnv 0 (JArr ([JStr ''A1''] @ JStr '' '' # [JStr ''A2''])) ''/tests'' False demoWorld =
     executeSql demoEnv 0 (JArr ([JStr ''A1''] @ [JStr ''A2''])) ''/tests'' False demoWorld \<and>
   actualCommands (toArray (JArr [JNull, JStr []])) = Inr [] \<and>
   executeSql demoEnv 0 (JArr [JNull, JStr []]) ''/tests'' True demoWorld = (Inr (), demoWorld)"
proof -
  note t = blanks_discarded_and_nothing_to_do[of demoEnv 0 "''/tests''" False demoWorld]
  have b: "blankEntry (JStr '' '')" by (simp add: blankEntry_def isWhiteSpace_def)
  have a: "actualCommands (toArray (JArr [JNull, JStr []])) = Inr []" by simp
  from t b have
    "executeSql demoEnv 0 (JArr ([JStr ''A1''] @ JStr '' '' # [JStr ''A2''])) ''/tests'' False demoWorld =
     executeSql demoEnv 0 (JArr ([JStr ''A1''] @ [JStr ''A2''])) ''/tests'' False demoWorld"
    by blast
  moreover from t a have
    "executeSql demoEnv 0 (JArr [JNull, JStr []]) ''/tests'' True demoWorld = (Inr (), demoWorld)"
    by blast
  ultimately show ?thesis using a b by simp
qed

lemma demo_file_groups:
  "sqlStatements demoEnv (heap demoWorld 0) (trace demoWorld) ''/tests'' True [''a.sql'', ''b.sql '']
     = Inr [\<lparr>statements = [''A1'', ''A2''], filename = ''/tests/a.sql''\<rparr>,
            \<lparr>statements = [''B1''], filename = ''/tests/b.sql''\<rparr>]"
  by (simp add: sqlStatements_def fetchSql_def getFullFilename_def replaceWithContext_def
        replaceLine_def matchToken_def splitSql_def demoEnv_def trim_def isWhiteSpace_def)

lemma demoWorld_trace: "trace demoWorld = []"
  by (simp add: demoWorld_def)

lemma demo_file_run:
  "executeSql demoEnv 0 (JArr [JStr ''a.sql'', JStr [], JStr ''b.sql '']) ''/tests'' True demoWorld
     = (Inr (), demoWorld\<lparr>trace := [ExecuteRawUnsafe ''A1'', ExecuteRawUnsafe ''A2'',
                                       ExecuteRawUnsafe ''B1'', Disconnect]\<rparr>)"
proof -
  have a: "actualCommands (toArray (JArr [JStr ''a.sql'', JStr [], JStr ''b.sql '']))
             = Inr [''a.sql'', ''b.sql '']"
    by (simp add: trim_def isWhiteSpace_def)
  have "allSucceed demoEnv (trace demoWorld) [''A1'', ''A2'', ''B1'']" by (simp add: demoEnv_def)
  then have "runStatements demoEnv
       [\<lparr>statements = [''A1'', ''A2''], filename = ''/tests/a.sql''\<rparr>,
        \<lparr>statements = [''B1''], filename = ''/tests/b.sql''\<rparr>] (trace demoWorld)
     = (Inr (), [ExecuteRawUnsafe ''A1'', ExecuteRawUnsafe ''A2'', ExecuteRawUnsafe ''B1'', Disconnect])"
    using runStatements_ok[of demoEnv "trace demoWorld"
       "[\<lparr>statements = [''A1'', ''A2''], filename = ''/tests/a.sql''\<rparr>,
        \<lparr>statements = [''B1''], filename = ''/tests/b.sql''\<rparr>]"]
    by (simp add: released_def demoEnv_def demoWorld_def)
  with executeSql_run[OF a demo_file_groups] show ?thesis
    by (simp add: flatten_def demoWorld_def)
qed

text \<open>
  Claim C4, as amended. Let the statements before \<open>s\<close> (in the order of the groups, and
  inside a group in the order of its statements) all be accepted, and let the database
  reject \<open>s\<close>, a statement of the group labelled \<open>f\<close>, with the error \<open>ex\<close>. Then the
  executor issues the statements before \<open>s\<close>, then \<open>s\<close>, then releases the connection
  once, and issues no statement after \<open>s\<close>, of this group or a later one. The label \<open>f\<close>
  is the full filename of one of the files, or \<open>raw input\<close>. If the release succeeds, the
  executor fails with the same error object, whose message is now
  \<open>Error executing sql "s" from f: \<close> followed by the old message. If the release fails,
  the executor fails with the error of the release. When every statement is accepted and
  there is at least one, the executor issues them all and then releases the connection
  once; it returns normally if the release succeeds and fails with the error of the
  release otherwise.
\<close>

theorem executeSql_failure:
  assumes "actualCommands (toArray commands) = Inr actual"
    and "sqlStatements E (heap w contextMap) (trace w) pathnameDir treatAsFiles actual = Inr groups"
  shows "(\<forall>pre s f post ex.
            flatten groups = pre @ (s, f) # post \<and>
            allSucceed E (trace w) (map fst pre) \<and>
            executeRawUnsafe E (trace w @ map ExecuteRawUnsafe (map fst pre)) s = Some ex \<longrightarrow>
              executeSql E contextMap commands pathnameDir treatAsFiles w =
                ((case disconnect E (trace w @ map ExecuteRawUnsafe (map fst pre)
                                       @ [ExecuteRawUnsafe s]) of
                    None \<Rightarrow>
                      Inl (JsError (errorObject ex)
                             (''Error executing sql '' @ [CHR 0x22] @ s @ [CHR 0x22] @ '' from ''
                                @ f @ '': '' @ message ex))
                  | Some dex \<Rightarrow> Inl dex),
                 w\<lparr>trace := trace w @ map ExecuteRawUnsafe (map fst pre)
                              @ [ExecuteRawUnsafe s, Disconnect]\<rparr>) \<and>
              (if treatAsFiles
               then f \<in> (\<lambda>name. getFullFilename name pathnameDir) ` set actual
               else f = ''raw input'')) \<and>
         (concat (map statements groups) \<noteq> [] \<and>
          allSucceed E (trace w) (concat (map statements groups)) \<longrightarrow>
            executeSql E contextMap commands pathnameDir treatAsFiles w =
              ((case disconnect E (trace w @ map ExecuteRawUnsafe (concat (map statements groups))) of
                  None \<Rightarrow> Inr ()
                | Some dex \<Rightarrow> Inl dex),
               w\<lparr>trace := trace w @ map ExecuteRawUnsafe (concat (map statements groups))
                            @ [Disconnect]\<rparr>))"
proof (intro conjI allI impI)
  fix pre s f post ex
  assume h: "flatten groups = pre @ (s, f) # post \<and>
            allSucceed E (trace w) (map fst pre) \<and>
            executeRawUnsafe E (trace w @ map ExecuteRawUnsafe (map fst pre)) s = Some ex"
  then have fl: "flatten groups = pre @ (s, f) # post"
    and ok: "allSucceed E (trace w) (map fst pre)"
    and ex: "executeRawUnsafe E (trace w @ map ExecuteRawUnsafe (map fst pre)) s = Some ex"
    by simp_all
  from fl have ne: "flatten groups \<noteq> []" by simp
  have "runStatements E groups (trace w) =
      (released E (trace w @ map ExecuteRawUnsafe (map fst pre) @ [ExecuteRawUnsafe s])
         (Inl (annotate ex s f)),
       trace w @ map ExecuteRawUnsafe (map fst pre) @ [ExecuteRawUnsafe s, Disconnect])"
    using fl ok ex by (rule runStatements_fail)
  with executeSql_run[OF assms ne]
  show "executeSql E contextMap commands pathnameDir treatAsFiles w =
                ((case disconnect E (trace w @ map ExecuteRawUnsafe (map fst pre)
                                       @ [ExecuteRawUnsafe s]) of
                    None \<Rightarrow>
                      Inl (JsError (errorObject ex)
                             (''Error executing sql '' @ [CHR 0x22] @ s @ [CHR 0x22] @ '' from ''
                                @ f @ '': '' @ message ex))
                  | Some dex \<Rightarrow> Inl dex),
                 w\<lparr>trace := trace w @ map ExecuteRawUnsafe (map fst pre)
                              @ [ExecuteRawUnsafe s, Disconnect]\<rparr>)"
    by (simp add: released_def annotate_def setMessage_def split: option.splits)
  from fl have "(s, f) \<in> set (flatten groups)" by simp
  with assms(2) show "if treatAsFiles
               then f \<in> (\<lambda>name. getFullFilename name pathnameDir) ` set actual
               else f = ''raw input''"
    by (rule group_label)
next
  assume h: "concat (map statements groups) \<noteq> [] \<and>
          allSucceed E (trace w) (concat (map statements groups))"
  then have ne: "flatten groups \<noteq> []"
    using map_fst_flatten[of groups] by auto
  from h have "runStatements E groups (trace w) =
           (released E (trace w @ map ExecuteRawUnsafe (concat (map statements groups))) (Inr ()),
            trace w @ map ExecuteRawUnsafe (concat (map statements groups)) @ [Disconnect])"
    by (simp add: runStatements_ok)
  with executeSql_run[OF assms ne]
  show "executeSql E contextMap commands pathnameDir treatAsFiles w =
              ((case disconnect E (trace w @ map ExecuteRawUnsafe (concat (map statements groups))) of
                  None \<Rightarrow> Inr ()
                | Some dex \<Rightarrow> Inl dex),
               w\<lparr>trace := trace w @ map ExecuteRawUnsafe (concat (map statements groups))
                            @ [Disconnect]\<rparr>)"
    by (simp add: released_def split: option.splits)
qed

lemma demo_raw_three:
  "sqlStatements demoEnv (heap demoWorld 0) (trace demoWorld) ''/tests'' False
     [''A1'', ''FAIL'', ''A3'']
     = Inr [\<lparr>statements = [''A1'', ''FAIL'', ''A3''], filename = ''raw input''\<rparr>]"
  by (simp add: sqlStatements_def replaceWithContext_def replaceLine_def matchToken_def
        splitSql_def demoEnv_def trim_def isWhiteSpace_def)

theorem executeSql_failure_witness:
  "executeSql demoEnv 0 (JArr [JStr ''A1'', JNull, JStr ''FAIL'', JStr ''A3'']) ''/tests'' False
       demoWorld =
     (Inl (JsError (Foreign 7)
             (''Error executing sql '' @ [CHR 0x22] @ ''FAIL'' @ [CHR 0x22]
                @ '' from raw input: no such table'')),
      demoWorld\<lparr>trace := [ExecuteRawUnsafe ''A1'', ExecuteRawUnsafe ''FAIL'', Disconnect]\<rparr>) \<and>
   executeSql demoEnv 0 (JArr [JStr ''A1'', JStr ''A2'']) ''/tests'' False demoWorld =
     (Inr (), demoWorld\<lparr>trace := [ExecuteRawUnsafe ''A1'', ExecuteRawUnsafe ''A2'', Disconnect]\<rparr>)"
proof
  have a: "actualCommands (toArray (JArr [JStr ''A1'', JNull, JStr ''FAIL'', JStr ''A3'']))
             = Inr [''A1'', ''FAIL'', ''A3'']"
    by (simp add: trim_def isWhiteSpace_def)
  have h: "flatten [\<lparr>statements = [''A1'', ''FAIL'', ''A3''], filename = ''raw input''\<rparr>]
             = [(''A1'', ''raw input'')] @ (''FAIL'', ''raw input'') # [(''A3'', ''raw input'')] \<and>
           allSucceed demoEnv (trace demoWorld) (map fst [(''A1'', ''raw input'')]) \<and>
           executeRawUnsafe demoEnv
             (trace demoWorld @ map ExecuteRawUnsafe (map fst [(''A1'', ''raw input'')])) ''FAIL''
             = Some (JsError (Foreign 7) ''no such table'')"
    by (simp add: flatten_def demoEnv_def)
  from executeSql_failure[OF a demo_raw_three] h
  have "executeSql demoEnv 0 (JArr [JStr ''A1'', JNull, JStr ''FAIL'', JStr ''A3'']) ''/tests''
          False demoWorld =
      ((case disconnect demoEnv (trace demoWorld @ map ExecuteRawUnsafe (map fst [(''A1'', ''raw input'')])
                                       @ [ExecuteRawUnsafe ''FAIL'']) of
          None \<Rightarrow>
            Inl (JsError (errorObject (JsError (Foreign 7) ''no such table''))
                   (''Error executing sql '' @ [CHR 0x22] @ ''FAIL'' @ [CHR 0x22] @ '' from ''
                      @ ''raw input'' @ '': '' @ message (JsError (Foreign 7) ''no such table'')))
        | Some dex \<Rightarrow> Inl dex),
       demoWorld\<lparr>trace := trace demoWorld @ map ExecuteRawUnsafe (map fst [(''A1'', ''raw input'')])
                              @ [ExecuteRawUnsafe ''FAIL'', Disconnect]\<rparr>)"
    by blast
  then show "executeSql demoEnv 0 (JArr [JStr ''A1'', JNull, JStr ''FAIL'', JStr ''A3'']) ''/tests'' False
       demoWorld =
     (Inl (JsError (Foreign 7)
             (''Error executing sql '' @ [CHR 0x22] @ ''FAIL'' @ [CHR 0x22]
                @ '' from raw input: no such table'')),
      demoWorld\<lparr>trace := [ExecuteRawUnsafe ''A1'', ExecuteRawUnsafe ''FAIL'', Disconnect]\<rparr>)"
    by (simp add: demoEnv_def demoWorld_def)
next
  have a: "actualCommands (toArray (JArr [JStr ''A1'', JStr ''A2''])) = Inr [''A1'', ''A2'']"
    by (simp add: trim_def isWhiteSpace_def)
  have h: "concat (map statements [\<lparr>statements = [''A1'', ''A2''], filename = ''raw input''\<rparr>]) \<noteq> [] \<and>
      allSucceed demoEnv (trace demoWorld)
        (concat (map statements [\<lparr>statements = [''A1'', ''A2''], filename = ''raw input''\<rparr>]))"
    by (simp add: demoEnv_def)
  from executeSql_failure[OF a demo_raw_groups] h
  have "executeSql demoEnv 0 (JArr [JStr ''A1'', JStr ''A2'']) ''/tests'' False demoWorld =
      ((case disconnect demoEnv (trace demoWorld @ map ExecuteRawUnsafe
                (concat (map statements [\<lparr>statements = [''A1'', ''A2''], filename = ''raw input''\<rparr>]))) of
          None \<Rightarrow> Inr ()
        | Some dex \<Rightarrow> Inl dex),
       demoWorld\<lparr>trace := trace demoWorld @ map ExecuteRawUnsafe
                (concat (map statements [\<lparr>statements = [''A1'', ''A2''], filename = ''raw input''\<rparr>]))
                            @ [Disconnect]\<rparr>)"
    by blast
  then show "executeSql demoEnv 0 (JArr [JStr ''A1'', JStr ''A2'']) ''/tests'' False demoWorld =
     (Inr (), demoWorld\<lparr>trace := [ExecuteRawUnsafe ''A1'', ExecuteRawUnsafe ''A2'', Disconnect]\<rparr>)"
    by (simp add: demoEnv_def demoWorld_def)
qed

text \<open>
  The claim C4 as written has the error of the statement come back in every case. With a
  database whose \<open>$disconnect()\<close> rejects, the statement \<open>FAIL\<close> is rejected with one error
  and the caller gets another, the one of the release, which the \<open>finally\<close> block throws
  last.
\<close>

theorem executeSql_failure_counterexample:
  "executeRawUnsafe demoEnvLostConnection [ExecuteRawUnsafe ''A1''] ''FAIL'' =
     Some (JsError (Foreign 7) ''no such table'') \<and>
   executeSql demoEnvLostConnection 0 (JArr [JStr ''A1'', JStr ''FAIL'', JStr ''A3'']) ''/tests''
       False demoWorld =
     (Inl (JsError (Foreign 8) ''connection lost''),
      demoWorld\<lparr>trace := [ExecuteRawUnsafe ''A1'', ExecuteRawUnsafe ''FAIL'', Disconnect]\<rparr>) \<and>
   fst (executeSql demoEnvLostConnection 0 (JArr [JStr ''A1'', JStr ''FAIL'', JStr ''A3''])
          ''/tests'' False demoWorld) \<noteq>
     Inl (JsError (Foreign 7)
            (''Error executing sql '' @ [CHR 0x22] @ ''FAIL'' @ [CHR 0x22]
               @ '' from raw input: no such table''))"
  by (simp add: executeSql_def sqlStatements_def replaceWithContext_def replaceLine_def
        matchToken_def splitSql_def statementCount_def runStatements_def annotate_def
        setMessage_def trim_def isWhiteSpace_def demoEnvLostConnection_def demoEnv_def
        demoWorld_def)

lemma fetchSql_Inr:
  "fetchSql E ctx tr name = Inr g \<Longrightarrow>
   \<exists>contents sql.
     readFileSync E tr name = Inr contents \<and>
     sqlifyAstify E (replaceWithContext ctx [Some contents] ! 0) = Inr sql \<and>
     g = \<lparr>statements = filter (\<lambda>line. length line > 0) (map trim (splitOn CHR '';'' sql)),
          filename = name\<rparr>"
  by (auto simp: fetchSql_def splitSql_def Let_def split: sum.splits)

text \<open>
  Claim C9. With \<open>treatAsFiles\<close>, there is one group for each entry that the filter kept,
  in their order. The group of an entry is labelled with the full name of its file, and
  its statements are the pieces, trimmed and without the empty ones, in their order, of
  what the parser made of the substituted text of that file, cut at the semicolons. The
  executor issues the statements of the groups in that order, and inside a group in the
  order of its list: what it issues is an initial part of the concatenated lists,
  followed by one release, and it is not empty when there is a statement. A statement is
  issued when all statements before it have been accepted, and statements are left out
  only after the last issued one has been rejected.
\<close>

theorem files_in_order:
  assumes "actualCommands (toArray commands) = Inr actual"
    and "sqlStatements E (heap w c) (trace w) d True actual = Inr groups"
  shows "length groups = length actual \<and>
         (\<forall>i<length actual. \<exists>contents sql.
            readFileSync E (trace w) (getFullFilename (actual ! i) d) = Inr contents \<and>
            sqlifyAstify E (replaceWithContext (heap w c) [Some contents] ! 0) = Inr sql \<and>
            groups ! i =
              \<lparr>statements = filter (\<lambda>line. length line > 0) (map trim (splitOn CHR '';'' sql)),
               filename = getFullFilename (actual ! i) d\<rparr>) \<and>
         (\<exists>done rest.
            concat (map statements groups) = done @ rest \<and>
            trace (snd (executeSql E c commands d True w)) =
              trace w @ (if done = [] then [] else map ExecuteRawUnsafe done @ [Disconnect]) \<and>
            allSucceed E (trace w) (butlast done) \<and>
            (rest \<noteq> [] \<longrightarrow>
               (\<exists>ex. executeRawUnsafe E (trace w @ map ExecuteRawUnsafe (butlast done)) (last done)
                  = Some ex)) \<and>
            (concat (map statements groups) \<noteq> [] \<longrightarrow> done \<noteq> []))"
proof (intro conjI)
  from assms(2) have ff: "fetchFiles E (heap w c) (trace w) d actual = Inr groups"
    by (simp add: sqlStatements_def)
  from fetchFiles_groups[OF ff]
  have m: "map (\<lambda>name. fetchSql E (heap w c) (trace w) (getFullFilename name d)) actual
           = map Inr groups" .
  then show len: "length groups = length actual" by (metis length_map)
  show "\<forall>i<length actual. \<exists>contents sql.
            readFileSync E (trace w) (getFullFilename (actual ! i) d) = Inr contents \<and>
            sqlifyAstify E (replaceWithContext (heap w c) [Some contents] ! 0) = Inr sql \<and>
            groups ! i =
              \<lparr>statements = filter (\<lambda>line. length line > 0) (map trim (splitOn CHR '';'' sql)),
               filename = getFullFilename (actual ! i) d\<rparr>"
  proof (intro allI impI)
    fix i
    assume i: "i < length actual"
    with m len have "fetchSql E (heap w c) (trace w) (getFullFilename (actual ! i) d)
        = Inr (groups ! i)"
      by (metis nth_map)
    then show "\<exists>contents sql.
            readFileSync E (trace w) (getFullFilename (actual ! i) d) = Inr contents \<and>
            sqlifyAstify E (replaceWithContext (heap w c) [Some contents] ! 0) = Inr sql \<and>
            groups ! i =
              \<lparr>statements = filter (\<lambda>line. length line > 0) (map trim (splitOn CHR '';'' sql)),
               filename = getFullFilename (actual ! i) d\<rparr>"
      by (rule fetchSql_Inr)
  qed
  show "\<exists>done rest.
            concat (map statements groups) = done @ rest \<and>
            trace (snd (executeSql E c commands d True w)) =
              trace w @ (if done = [] then [] else map ExecuteRawUnsafe done @ [Disconnect]) \<and>
            allSucceed E (trace w) (butlast done) \<and>
            (rest \<noteq> [] \<longrightarrow>
               (\<exists>ex. executeRawUnsafe E (trace w @ map ExecuteRawUnsafe (butlast done)) (last done)
                  = Some ex)) \<and>
            (concat (map statements groups) \<noteq> [] \<longrightarrow> done \<noteq> [])"
  proof (cases "flatten groups = []")
    case True
    with assms have "executeSql E c commands d True w = (Inr (), w)"
      by (rule executeSql_nothing)
    moreover from True have "concat (map statements groups) = []"
      using map_fst_flatten[of groups] by simp
    ultimately have "concat (map statements groups) = [] @ [] \<and>
            trace (snd (executeSql E c commands d True w)) =
              trace w @ (if ([]::string list) = [] then [] else map ExecuteRawUnsafe [] @ [Disconnect]) \<and>
            allSucceed E (trace w) (butlast []) \<and>
            (([]::string list) \<noteq> [] \<longrightarrow>
               (\<exists>ex. executeRawUnsafe E (trace w @ map ExecuteRawUnsafe (butlast [])) (last [])
                  = Some ex)) \<and>
            (concat (map statements groups) \<noteq> [] \<longrightarrow> ([]::string list) \<noteq> [])"
      by simp
    then show ?thesis by blast
  next
    case False
    then have ne: "concat (map statements groups) \<noteq> []"
      using map_fst_flatten[of groups] by (metis map_is_Nil_conv)
    from runStatements_order[of groups E "trace w"] ne obtain issued rest where
      c: "concat (map statements groups) = issued @ rest"
      and t: "snd (runStatements E groups (trace w)) = trace w @ map ExecuteRawUnsafe issued @ [Disconnect]"
      and a: "allSucceed E (trace w) (butlast issued)"
      and r: "rest \<noteq> [] \<longrightarrow>
        (\<exists>ex. executeRawUnsafe E (trace w @ map ExecuteRawUnsafe (butlast issued)) (last issued) = Some ex)"
      and n: "issued \<noteq> []"
      by blast
    from executeSql_run[OF assms False] t n
    have "trace (snd (executeSql E c commands d True w)) =
            trace w @ (if issued = [] then [] else map ExecuteRawUnsafe issued @ [Disconnect])"
      by simp
    with c a r n show ?thesis by blast
  qed
qed

theorem files_in_order_witness:
  "actualCommands (toArray (JArr [JStr ''a.sql'', JStr [], JStr ''b.sql '']))
     = Inr [''a.sql'', ''b.sql ''] \<and>
   sqlStatements demoEnv (heap demoWorld 0) (trace demoWorld) ''/tests'' True [''a.sql'', ''b.sql '']
     = Inr [\<lparr>statements = [''A1'', ''A2''], filename = ''/tests/a.sql''\<rparr>,
            \<lparr>statements = [''B1''], filename = ''/tests/b.sql''\<rparr>] \<and>
   trace (snd (executeSql demoEnv 0 (JArr [JStr ''a.sql'', JStr [], JStr ''b.sql ''])
                 ''/tests'' True demoWorld)) =
     [ExecuteRawUnsafe ''A1'', ExecuteRawUnsafe ''A2'', ExecuteRawUnsafe ''B1'', Disconnect]"
proof -
  have a: "actualCommands (toArray (JArr [JStr ''a.sql'', JStr [], JStr ''b.sql '']))
             = Inr [''a.sql'', ''b.sql '']"
    by (simp add: trim_def isWhiteSpace_def)
  from files_in_order[OF a demo_file_groups] obtain issued rest where
    c: "concat (map statements
       [\<lparr>statements = [''A1'', ''A2''], filename = ''/tests/a.sql''\<rparr>,
        \<lparr>statements = [''B1''], filename = ''/tests/b.sql''\<rparr>]) = issued @ rest"
    and t: "trace (snd (executeSql demoEnv 0 (JArr [JStr ''a.sql'', JStr [], JStr ''b.sql ''])
                  ''/tests'' True demoWorld)) =
           trace demoWorld @ (if issued = [] then [] else map ExecuteRawUnsafe issued @ [Disconnect])"
    and r: "rest \<noteq> [] \<longrightarrow>
        (\<exists>ex. executeRawUnsafe demoEnv
                 (trace demoWorld @ map ExecuteRawUnsafe (butlast issued)) (last issued) = Some ex)"
    and n: "concat (map statements
       [\<lparr>statements = [''A1'', ''A2''], filename = ''/tests/a.sql''\<rparr>,
        \<lparr>statements = [''B1''], filename = ''/tests/b.sql''\<rparr>]) \<noteq> [] \<longrightarrow> issued \<noteq> []"
    by blast
  from c have all: "[''A1'', ''A2'', ''B1''] = issued @ rest" by simp
  from n have ne: "issued \<noteq> []" by simp
  have "rest = []"
  proof (rule ccontr)
    assume "rest \<noteq> []"
    with r obtain ex where
      f: "executeRawUnsafe demoEnv
            (trace demoWorld @ map ExecuteRawUnsafe (butlast issued)) (last issued) = Some ex"
      by blast
    from ne have "last issued \<in> set issued" by simp
    then have "last issued \<in> set (issued @ rest)" by simp
    with all have "last issued \<in> set [''A1'', ''A2'', ''B1'']" by simp
    then have "last issued \<noteq> ''FAIL''" by auto
    then have "executeRawUnsafe demoEnv
            (trace demoWorld @ map ExecuteRawUnsafe (butlast issued)) (last issued) = None"
      by (simp add: demoEnv_def)
    with f show False by simp
  qed
  with all have "issued = [''A1'', ''A2'', ''B1'']" by simp
  with t have "trace (snd (executeSql demoEnv 0 (JArr [JStr ''a.sql'', JStr [], JStr ''b.sql ''])
                 ''/tests'' True demoWorld)) =
     [ExecuteRawUnsafe ''A1'', ExecuteRawUnsafe ''A2'', ExecuteRawUnsafe ''B1'', Disconnect]"
    by (simp add: demoWorld_trace)
  with a demo_file_groups show ?thesis by simp
qed

section \<open>Properties of the scenario builders\<close>

lemma describeBlockName_own: "objectPrototype ''describeBlockName'' = None"
  by (simp add: objectPrototype_def)

lemma truthy_getProp:
  "objectPrototype key = None \<Longrightarrow>
   truthy (getProp obj key) \<longleftrightarrow> (\<exists>v. obj key = Some (PStr v) \<and> v \<noteq> [])"
proof (cases "obj key")
  case None
  assume "objectPrototype key = None"
  with None show ?thesis by (simp add: getProp_def)
next
  case (Some p)
  then show ?thesis by (cases p) (simp_all add: getProp_def)
qed

lemma map_add_lookup:
  "(m ++ n) key = (case n key of Some v \<Rightarrow> Some v | None \<Rightarrow> m key)"
  by (simp add: map_add_def split: option.splits)

text \<open>
  Claim C7. With a number of arguments other than four and five, each of the four helper
  families fails at once with a new error. The message names the family
  (\<open>sqlScenario()\<close>, \<open>sqlFileScenario()\<close>, \<open>describeSqlScenario()\<close> or
  \<open>describeSqlFileScenario()\<close>) and ends with \<open>JSON.stringify(args)\<close>. The world is as it
  was: no statement has run, and neither \<open>it\<close> nor \<open>describeFunc\<close> has been called. The
  \<open>only\<close>, \<open>skip\<close> and \<open>failing\<close> variants differ in the \<open>it\<close> or \<open>describeFunc\<close> they are
  given, and the result does not depend on it.
\<close>

theorem parameter_mismatch:
  "length args \<noteq> 4 \<and> length args \<noteq> 5 \<longrightarrow>
     buildTestSqlScenario E it testPath False args w =
       (Inl (JsError Constructed
          (''parameter mismatch in sqlScenario(): '' @ jsonStringify E args)), w) \<and>
     buildTestSqlScenario E it testPath True args w =
       (Inl (JsError Constructed
          (''parameter mismatch in sqlFileScenario(): '' @ jsonStringify E args)), w) \<and>
     buildDescribeSqlScenario E describeFunc testPath False args w =
       (Inl (JsError Constructed
          (''parameter mismatch in describeSqlScenario(): '' @ jsonStringify E args)), w) \<and>
     buildDescribeSqlScenario E describeFunc testPath True args w =
       (Inl (JsError Constructed
          (''parameter mismatch in describeSqlFileScenario(): '' @ jsonStringify E args)), w)"
  by (simp add: buildTestSqlScenario_def buildDescribeSqlScenario_def Let_def)

theorem parameter_mismatch_witness:
  "length [JStr ''adds a row'', JStr ''select 1'', JFun 0] \<noteq> 4 \<and>
   length [JStr ''adds a row'', JStr ''select 1'', JFun 0] \<noteq> 5 \<and>
   buildTestSqlScenario demoEnv It ''/tests/a.test.js'' True
       [JStr ''adds a row'', JStr ''select 1'', JFun 0] demoWorld =
     (Inl (JsError Constructed ''parameter mismatch in sqlFileScenario(): [...]''), demoWorld)"
  using parameter_mismatch[of "[JStr ''adds a row'', JStr ''select 1'', JFun 0]" demoEnv It
      "''/tests/a.test.js''" demoWorld Describe]
  by (simp add: demoEnv_def)

text \<open>
  Claim C1, as amended. With five arguments, the second a context map, the test helper
  looks at the value of the key \<open>describeBlockName\<close>. If the value is a non-empty string,
  the test is registered with the caller's own object (the same address) and nothing is
  allocated. If the key is absent, or holds \<open>undefined\<close> or the empty string, the test is
  registered with a new object, at an address that was free, which holds the default
  mapping overlaid with the caller's mapping: a key of the caller wins.
\<close>

theorem test_scoped_context:
  "length args = 5 \<and> args ! 1 = JObj a \<longrightarrow>
     buildTestSqlScenario E it testPath treatAsFiles args w =
       (if (\<exists>v. heap w a ''describeBlockName'' = Some (PStr v) \<and> v \<noteq> []) then
          (Inr JUndefined,
           emit (ItCalled it (args ! 0)
                   \<lparr>tcContextMap = a, tcSqlSetup = args ! 2, tcSqlTeardown = args ! 3,
                    tcTestFunc = args ! 4, tcPathnameDir = pathParseDir E testPath,
                    tcTreatAsFiles = treatAsFiles\<rparr>) w)
        else
          (Inr JUndefined,
           emit (ItCalled it (args ! 0)
                   \<lparr>tcContextMap = nextAddr w, tcSqlSetup = args ! 2, tcSqlTeardown = args ! 3,
                    tcTestFunc = args ! 4, tcPathnameDir = pathParseDir E testPath,
                    tcTreatAsFiles = treatAsFiles\<rparr>)
             (w\<lparr>heap := (heap w)(nextAddr w := startingContext E ++ heap w a),
                nextAddr := Suc (nextAddr w)\<rparr>))) \<and>
     (\<forall>key. (startingContext E ++ heap w a) key =
        (case heap w a key of Some v \<Rightarrow> Some v | None \<Rightarrow> startingContext E key))"
  by (auto simp: buildTestSqlScenario_def Let_def registerTest_def allocate_def
        truthy_getProp[OF describeBlockName_own] map_add_lookup)

theorem test_scoped_context_witness:
  "length [JStr ''reads'', JObj 0, JStr ''select 1'', JNull, JFun 0] = 5 \<and>
   [JStr ''reads'', JObj 0, JStr ''select 1'', JNull, JFun 0] ! 1 = JObj 0 \<and>
   buildTestSqlScenario demoEnv It ''/tests/a.test.js'' False
       [JStr ''reads'', JObj 0, JStr ''select 1'', JNull, JFun 0]
       (demoWorld\<lparr>heap := (heap demoWorld)(0 := [''describeBlockName'' \<mapsto> PStr ''orders'']),
                   nextAddr := 1\<rparr>) =
     (Inr JUndefined,
      emit (ItCalled It (JStr ''reads'')
              \<lparr>tcContextMap = 0, tcSqlSetup = JStr ''select 1'', tcSqlTeardown = JNull,
               tcTestFunc = JFun 0, tcPathnameDir = ''/tests'', tcTreatAsFiles = False\<rparr>)
        (demoWorld\<lparr>heap := (heap demoWorld)(0 := [''describeBlockName'' \<mapsto> PStr ''orders'']),
                    nextAddr := 1\<rparr>))"
  using test_scoped_context[of "[JStr ''reads'', JObj 0, JStr ''select 1'', JNull, JFun 0]" 0
      demoEnv It "''/tests/a.test.js''" False
      "demoWorld\<lparr>heap := (heap demoWorld)(0 := [''describeBlockName'' \<mapsto> PStr ''orders'']),
                  nextAddr := 1\<rparr>"]
  by (simp add: demoEnv_def)

text \<open>
  The claim C1 as written tests for the presence of the key. A mapping that holds the key
  with the empty string is not used as it is: the test gets a new object, merged with the
  default mapping.
\<close>

theorem test_scoped_context_counterexample:
  "''describeBlockName'' \<in> dom [''describeBlockName'' \<mapsto> PStr []] \<and>
   buildTestSqlScenario demoEnv It ''/tests/a.test.js'' False
       [JStr ''reads'', JObj 0, JStr ''select 1'', JNull, JFun 0]
       (demoWorld\<lparr>heap := (heap demoWorld)(0 := [''describeBlockName'' \<mapsto> PStr []]),
                   nextAddr := 1\<rparr>) \<noteq>
     (Inr JUndefined,
      emit (ItCalled It (JStr ''reads'')
              \<lparr>tcContextMap = 0, tcSqlSetup = JStr ''select 1'', tcSqlTeardown = JNull,
               tcTestFunc = JFun 0, tcPathnameDir = ''/tests'', tcTreatAsFiles = False\<rparr>)
        (demoWorld\<lparr>heap := (heap demoWorld)(0 := [''describeBlockName'' \<mapsto> PStr []]),
                    nextAddr := 1\<rparr>))"
  by (simp add: Let_def buildTestSqlScenario_def registerTest_def allocate_def getProp_def
        objectPrototype_def emit_def demoEnv_def demoWorld_def)

lemma describe_scoped_context:
  "(length args = 5 \<and> args ! 1 = JObj a \<longrightarrow>
      buildDescribeSqlScenario E describeFunc testPath treatAsFiles args w =
        (Inr JUndefined,
         emit (DescribeCalled describeFunc (args ! 0)
                 \<lparr>dcContextMap = nextAddr w, dcSqlSetup = args ! 2, dcSqlTeardown = args ! 3,
                  dcDescribeBlock = args ! 4, dcPathnameDir = pathParseDir E testPath,
                  dcTreatAsFiles = treatAsFiles\<rparr>)
           (w\<lparr>heap := (heap w)(nextAddr w :=
                          [''describeBlockName'' \<mapsto> PUndefined] ++ startingContext E ++ heap w a),
              nextAddr := Suc (nextAddr w)\<rparr>))) \<and>
   (length args = 4 \<longrightarrow>
      buildDescribeSqlScenario E describeFunc testPath treatAsFiles args w =
        (Inr JUndefined,
         emit (DescribeCalled describeFunc (args ! 0)
                 \<lparr>dcContextMap = nextAddr w, dcSqlSetup = args ! 1, dcSqlTeardown = args ! 2,
                  dcDescribeBlock = args ! 3, dcPathnameDir = pathParseDir E testPath,
                  dcTreatAsFiles = treatAsFiles\<rparr>)
           (w\<lparr>heap := (heap w)(nextAddr w :=
                          [''describeBlockName'' \<mapsto> PUndefined] ++ startingContext E),
              nextAddr := Suc (nextAddr w)\<rparr>)))"
  by (simp add: buildDescribeSqlScenario_def Let_def registerDescribe_def allocate_def)

lemma describeCallback_passes_context:
  "dcDescribeBlock c = JFun n \<Longrightarrow>
   describeCallback E c w =
     (case callFunction E n [JObj (dcContextMap c)]
             (w\<lparr>trace := trace w @
                  [BeforeAllCalled
                     \<lparr>hcContextMap = dcContextMap c, hcSql = dcSqlSetup c,
                      hcPathnameDir = dcPathnameDir c, hcTreatAsFiles = dcTreatAsFiles c\<rparr>,
                   AfterAllCalled
                     \<lparr>hcContextMap = dcContextMap c, hcSql = dcSqlTeardown c,
                      hcPathnameDir = dcPathnameDir c, hcTreatAsFiles = dcTreatAsFiles c\<rparr>,
                   Invoked n [JObj (dcContextMap c)]]\<rparr>) of
        (Inl ex, w3) \<Rightarrow> (Inl ex, w3)
      | (Inr v, w3) \<Rightarrow> (Inr JUndefined, w3))"
  by (simp add: describeCallback_def invoke_def emit_def Let_def)

text \<open>
  Claim C2, on the call
  \<open>describeSqlScenario('orders', 'insert into t values (1)', 'delete from t', block)\<close>.
  The group is registered with a new context map at address 0, which holds the default
  keys, and in that map the key \<open>describeBlockName\<close> holds \<open>undefined\<close>, not the name
  \<open>orders\<close>: \<open>blockContext\<close> is built before the name is read from the arguments. The
  callback of the group hands the same map to the two hooks and to the block.
\<close>

theorem group_name_undefined:
  "fst (buildDescribeSqlScenario demoEnv Describe ''/tests/a.test.js'' False
          [JStr ''orders'', JStr ''insert into t values (1)'', JStr ''delete from t'', JFun 0]
          demoWorld) = Inr JUndefined \<and>
   trace (snd (buildDescribeSqlScenario demoEnv Describe ''/tests/a.test.js'' False
          [JStr ''orders'', JStr ''insert into t values (1)'', JStr ''delete from t'', JFun 0]
          demoWorld)) =
     [DescribeCalled Describe (JStr ''orders'')
        \<lparr>dcContextMap = 0, dcSqlSetup = JStr ''insert into t values (1)'',
         dcSqlTeardown = JStr ''delete from t'', dcDescribeBlock = JFun 0,
         dcPathnameDir = ''/tests'', dcTreatAsFiles = False\<rparr>] \<and>
   heap (snd (buildDescribeSqlScenario demoEnv Describe ''/tests/a.test.js'' False
          [JStr ''orders'', JStr ''insert into t values (1)'', JStr ''delete from t'', JFun 0]
          demoWorld)) 0 ''describeBlockName'' = Some PUndefined \<and>
   heap (snd (buildDescribeSqlScenario demoEnv Describe ''/tests/a.test.js'' False
          [JStr ''orders'', JStr ''insert into t values (1)'', JStr ''delete from t'', JFun 0]
          demoWorld)) 0 ''describeBlockName'' \<noteq> Some (PStr ''orders'') \<and>
   heap (snd (buildDescribeSqlScenario demoEnv Describe ''/tests/a.test.js'' False
          [JStr ''orders'', JStr ''insert into t values (1)'', JStr ''delete from t'', JFun 0]
          demoWorld)) 0 ''TEST_DATABASE_DBNAME'' = Some (PStr ''am_admin_test'') \<and>
   trace (snd (describeCallback demoEnv
          \<lparr>dcContextMap = 0, dcSqlSetup = JStr ''insert into t values (1)'',
           dcSqlTeardown = JStr ''delete from t'', dcDescribeBlock = JFun 0,
           dcPathnameDir = ''/tests'', dcTreatAsFiles = False\<rparr> demoWorld)) =
     [BeforeAllCalled
        \<lparr>hcContextMap = 0, hcSql = JStr ''insert into t values (1)'',
         hcPathnameDir = ''/tests'', hcTreatAsFiles = False\<rparr>,
      AfterAllCalled
        \<lparr>hcContextMap = 0, hcSql = JStr ''delete from t'',
         hcPathnameDir = ''/tests'', hcTreatAsFiles = False\<rparr>,
      Invoked 0 [JObj 0]]"
  by (simp add: buildDescribeSqlScenario_def Let_def registerDescribe_def allocate_def
        describeCallback_def invoke_def emit_def demoEnv_def demoWorld_def startingContext_def
        orDefault_def)

lemma executeStatements_callFunction:
  "executeStatements (E\<lparr>callFunction := k\<rparr>) f ss tr = executeStatements E f ss tr"
  by (induction ss arbitrary: tr) (auto split: option.splits)

lemma executeGroups_callFunction:
  "executeGroups (E\<lparr>callFunction := k\<rparr>) gs tr = executeGroups E gs tr"
  by (induction gs arbitrary: tr)
     (simp_all add: executeStatements_callFunction split: prod.splits option.splits)

lemma runStatements_callFunction:
  "runStatements (E\<lparr>callFunction := k\<rparr>) gs tr = runStatements E gs tr"
  by (simp add: runStatements_def executeGroups_callFunction)

lemma splitSql_callFunction: "splitSql (E\<lparr>callFunction := k\<rparr>) text = splitSql E text"
  by (simp add: splitSql_def)

lemma fetchSql_callFunction:
  "fetchSql (E\<lparr>callFunction := k\<rparr>) ctx tr name = fetchSql E ctx tr name"
  by (simp add: fetchSql_def splitSql_callFunction split: sum.splits)

lemma fetchFiles_callFunction:
  "fetchFiles (E\<lparr>callFunction := k\<rparr>) ctx tr d names = fetchFiles E ctx tr d names"
  by (induction names) (simp_all add: fetchSql_callFunction split: sum.splits)

lemma sqlStatements_callFunction:
  "sqlStatements (E\<lparr>callFunction := k\<rparr>) ctx tr d f actual = sqlStatements E ctx tr d f actual"
  by (simp add: sqlStatements_def fetchFiles_callFunction splitSql_callFunction)

lemma executeSql_callFunction:
  "executeSql (E\<lparr>callFunction := k\<rparr>) c commands d f w = executeSql E c commands d f w"
  by (simp add: executeSql_def sqlStatements_callFunction runStatements_callFunction
        split: sum.splits)

lemma executeSql_shape:
  "snd (executeSql E c commands d f w) = w \<or>
   (\<exists>issued. issued \<noteq> [] \<and>
      snd (executeSql E c commands d f w) =
        w\<lparr>trace := trace w @ map ExecuteRawUnsafe issued @ [Disconnect]\<rparr>)"
proof (cases "\<exists>actual groups. actualCommands (toArray commands) = Inr actual \<and>
    sqlStatements E (heap w c) (trace w) d f actual = Inr groups \<and> flatten groups \<noteq> []")
  case True
  then obtain actual groups where a: "actualCommands (toArray commands) = Inr actual"
    and g: "sqlStatements E (heap w c) (trace w) d f actual = Inr groups"
    and n: "flatten groups \<noteq> []" by blast
  from n have "concat (map statements groups) \<noteq> []"
    using map_fst_flatten[of groups] by (metis map_is_Nil_conv)
  with runStatements_order[of groups E "trace w"] obtain issued where
    "snd (runStatements E groups (trace w)) = trace w @ map ExecuteRawUnsafe issued @ [Disconnect]"
    and "issued \<noteq> []"
    by blast
  with executeSql_run[OF a g n] show ?thesis by auto
next
  case False
  then have "snd (executeSql E c commands d f w) = w"
    by (auto simp: executeSql_def statementCount_flatten split: sum.splits)
  then show ?thesis by simp
qed

lemmas demo_eval = executeSql_def sqlStatements_def replaceWithContext_def replaceLine_def
  matchToken_def splitSql_def statementCount_def runStatements_def annotate_def setMessage_def
  trim_def isWhiteSpace_def demoEnv_def

lemma demo_setup:
  "executeSql demoEnv 0 (JStr ''S1'') ''/tests'' False demoWorld =
     (Inr (), demoWorld\<lparr>trace := [ExecuteRawUnsafe ''S1'', Disconnect]\<rparr>)"
  by (simp add: demo_eval demoWorld_def)

lemma demo_body_throws:
  "invoke demoEnv (JFun 1) [] (demoWorld\<lparr>trace := [ExecuteRawUnsafe ''S1'', Disconnect]\<rparr>) =
     (Inl (JsError (Foreign 9) ''expected 1 to be 2''),
      demoWorld\<lparr>trace := [ExecuteRawUnsafe ''S1'', Disconnect, Invoked 1 []]\<rparr>)"
  by (simp add: invoke_def emit_def demoEnv_def demoWorld_def)

lemma demo_teardown:
  "executeSql demoEnv 0 (JStr ''T1'') ''/tests'' False
       (demoWorld\<lparr>trace := [ExecuteRawUnsafe ''S1'', Disconnect, Invoked 1 []]\<rparr>) =
     (Inr (), demoWorld\<lparr>trace := [ExecuteRawUnsafe ''S1'', Disconnect, Invoked 1 [],
                                    ExecuteRawUnsafe ''T1'', Disconnect]\<rparr>)"
  by (simp add: demo_eval demoWorld_def)

lemma demo_teardown_fails:
  "executeSql demoEnv 0 (JStr ''FAIL'') ''/tests'' False
       (demoWorld\<lparr>trace := [ExecuteRawUnsafe ''S1'', Disconnect, Invoked 1 []]\<rparr>) =
     (Inl (JsError (Foreign 7)
             (''Error executing sql '' @ [CHR 0x22] @ ''FAIL'' @ [CHR 0x22]
                @ '' from raw input: no such table'')),
      demoWorld\<lparr>trace := [ExecuteRawUnsafe ''S1'', Disconnect, Invoked 1 [],
                             ExecuteRawUnsafe ''FAIL'', Disconnect]\<rparr>)"
  by (simp add: demo_eval demoWorld_def)

lemma demo_setup_fails:
  "executeSql demoEnv 0 (JStr ''FAIL'') ''/tests'' False demoWorld =
     (Inl (JsError (Foreign 7)
             (''Error executing sql '' @ [CHR 0x22] @ ''FAIL'' @ [CHR 0x22]
                @ '' from raw input: no such table'')),
      demoWorld\<lparr>trace := [ExecuteRawUnsafe ''FAIL'', Disconnect]\<rparr>)"
  by (simp add: demo_eval demoWorld_def)

text \<open>
  Claim C5. Let the setup succeed and leave the world \<open>w1\<close>, let the test function, called
  on \<open>w1\<close>, settle with \<open>outcome\<close> (a value or a thrown error) and leave \<open>w2\<close>, and let
  the executor, run on the teardown SQL from \<open>w2\<close>, give \<open>t\<close> and leave \<open>w3\<close>. Then the
  test ends in \<open>w3\<close>: the teardown has run once, after the body, whatever the body did,
  and what it added to the events of \<open>w2\<close> is nothing, or statements and one release. If
  the teardown succeeded, the test gives what the body gave: its value, or its error
  again. If the teardown failed, the test fails with the error of the teardown, also when
  the body had failed.
\<close>

theorem teardown_after_body:
  assumes "executeSql E (tcContextMap c) (tcSqlSetup c) (tcPathnameDir c) (tcTreatAsFiles c) w
             = (Inr (), w1)"
    and "invoke E (tcTestFunc c) [] w1 = (outcome, w2)"
    and "executeSql E (tcContextMap c) (tcSqlTeardown c) (tcPathnameDir c) (tcTreatAsFiles c) w2
             = (t, w3)"
  shows "snd (testCallback E c w) = w3 \<and>
         (t = Inr () \<longrightarrow> fst (testCallback E c w) = outcome) \<and>
         (\<forall>tex. t = Inl tex \<longrightarrow> fst (testCallback E c w) = Inl tex) \<and>
         (w3 = w2 \<or>
          (\<exists>issued. issued \<noteq> [] \<and>
             w3 = w2\<lparr>trace := trace w2 @ map ExecuteRawUnsafe issued @ [Disconnect]\<rparr>))"
proof -
  from assms have "snd (testCallback E c w) = w3 \<and>
         (t = Inr () \<longrightarrow> fst (testCallback E c w) = outcome) \<and>
         (\<forall>tex. t = Inl tex \<longrightarrow> fst (testCallback E c w) = Inl tex)"
    by (cases t) (simp_all add: testCallback_def)
  moreover from assms(3)
    executeSql_shape[of E "tcContextMap c" "tcSqlTeardown c" "tcPathnameDir c" "tcTreatAsFiles c" w2]
  have "w3 = w2 \<or>
          (\<exists>issued. issued \<noteq> [] \<and>
             w3 = w2\<lparr>trace := trace w2 @ map ExecuteRawUnsafe issued @ [Disconnect]\<rparr>)"
    by simp
  ultimately show ?thesis by blast
qed

theorem teardown_after_body_witness:
  "testCallback demoEnv
       \<lparr>tcContextMap = 0, tcSqlSetup = JStr ''S1'', tcSqlTeardown = JStr ''T1'',
        tcTestFunc = JFun 1, tcPathnameDir = ''/tests'', tcTreatAsFiles = False\<rparr> demoWorld =
     (Inl (JsError (Foreign 9) ''expected 1 to be 2''),
      demoWorld\<lparr>trace := [ExecuteRawUnsafe ''S1'', Disconnect, Invoked 1 [],
                             ExecuteRawUnsafe ''T1'', Disconnect]\<rparr>) \<and>
   testCallback demoEnv
       \<lparr>tcContextMap = 0, tcSqlSetup = JStr ''S1'', tcSqlTeardown = JStr ''FAIL'',
        tcTestFunc = JFun 1, tcPathnameDir = ''/tests'', tcTreatAsFiles = False\<rparr> demoWorld =
     (Inl (JsError (Foreign 7)
             (''Error executing sql '' @ [CHR 0x22] @ ''FAIL'' @ [CHR 0x22]
                @ '' from raw input: no such table'')),
      demoWorld\<lparr>trace := [ExecuteRawUnsafe ''S1'', Disconnect, Invoked 1 [],
                             ExecuteRawUnsafe ''FAIL'', Disconnect]\<rparr>)"
proof
  have "snd (testCallback demoEnv
       \<lparr>tcContextMap = 0, tcSqlSetup = JStr ''S1'', tcSqlTeardown = JStr ''T1'',
        tcTestFunc = JFun 1, tcPathnameDir = ''/tests'', tcTreatAsFiles = False\<rparr> demoWorld)
      = demoWorld\<lparr>trace := [ExecuteRawUnsafe ''S1'', Disconnect, Invoked 1 [],
                             ExecuteRawUnsafe ''T1'', Disconnect]\<rparr> \<and>
    fst (testCallback demoEnv
       \<lparr>tcContextMap = 0, tcSqlSetup = JStr ''S1'', tcSqlTeardown = JStr ''T1'',
        tcTestFunc = JFun 1, tcPathnameDir = ''/tests'', tcTreatAsFiles = False\<rparr> demoWorld)
      = Inl (JsError (Foreign 9) ''expected 1 to be 2'')"
    using teardown_after_body[of demoEnv
       "\<lparr>tcContextMap = 0, tcSqlSetup = JStr ''S1'', tcSqlTeardown = JStr ''T1'',
        tcTestFunc = JFun 1, tcPathnameDir = ''/tests'', tcTreatAsFiles = False\<rparr>" demoWorld
       "demoWorld\<lparr>trace := [ExecuteRawUnsafe ''S1'', Disconnect]\<rparr>"
       "Inl (JsError (Foreign 9) ''expected 1 to be 2'')"
       "demoWorld\<lparr>trace := [ExecuteRawUnsafe ''S1'', Disconnect, Invoked 1 []]\<rparr>"
       "Inr ()"
       "demoWorld\<lparr>trace := [ExecuteRawUnsafe ''S1'', Disconnect, Invoked 1 [],
                             ExecuteRawUnsafe ''T1'', Disconnect]\<rparr>"]
    by (simp add: demo_setup demo_body_throws demo_teardown del: One_nat_def)
  then show "testCallback demoEnv
       \<lparr>tcContextMap = 0, tcSqlSetup = JStr ''S1'', tcSqlTeardown = JStr ''T1'',
        tcTestFunc = JFun 1, tcPathnameDir = ''/tests'', tcTreatAsFiles = False\<rparr> demoWorld =
     (Inl (JsError (Foreign 9) ''expected 1 to be 2''),
      demoWorld\<lparr>trace := [ExecuteRawUnsafe ''S1'', Disconnect, Invoked 1 [],
                             ExecuteRawUnsafe ''T1'', Disconnect]\<rparr>)"
    by (simp add: prod_eq_iff)
next
  have "snd (testCallback demoEnv
       \<lparr>tcContextMap = 0, tcSqlSetup = JStr ''S1'', tcSqlTeardown = JStr ''FAIL'',
        tcTestFunc = JFun 1, tcPathnameDir = ''/tests'', tcTreatAsFiles = False\<rparr> demoWorld)
      = demoWorld\<lparr>trace := [ExecuteRawUnsafe ''S1'', Disconnect, Invoked 1 [],
                             ExecuteRawUnsafe ''FAIL'', Disconnect]\<rparr> \<and>
    fst (testCallback demoEnv
       \<lparr>tcContextMap = 0, tcSqlSetup = JStr ''S1'', tcSqlTeardown = JStr ''FAIL'',
        tcTestFunc = JFun 1, tcPathnameDir = ''/tests'', tcTreatAsFiles = False\<rparr> demoWorld)
      = Inl (JsError (Foreign 7)
             (''Error executing sql '' @ [CHR 0x22] @ ''FAIL'' @ [CHR 0x22]
                @ '' from raw input: no such table''))"
    using teardown_after_body[of demoEnv
       "\<lparr>tcContextMap = 0, tcSqlSetup = JStr ''S1'', tcSqlTeardown = JStr ''FAIL'',
        tcTestFunc = JFun 1, tcPathnameDir = ''/tests'', tcTreatAsFiles = False\<rparr>" demoWorld
       "demoWorld\<lparr>trace := [ExecuteRawUnsafe ''S1'', Disconnect]\<rparr>"
       "Inl (JsError (Foreign 9) ''expected 1 to be 2'')"
       "demoWorld\<lparr>trace := [ExecuteRawUnsafe ''S1'', Disconnect, Invoked 1 []]\<rparr>"
       "Inl (JsError (Foreign 7)
             (''Error executing sql '' @ [CHR 0x22] @ ''FAIL'' @ [CHR 0x22]
                @ '' from raw input: no such table''))"
       "demoWorld\<lparr>trace := [ExecuteRawUnsafe ''S1'', Disconnect, Invoked 1 [],
                             ExecuteRawUnsafe ''FAIL'', Disconnect]\<rparr>"]
    by (simp add: demo_setup demo_body_throws demo_teardown_fails del: One_nat_def)
  then show "testCallback demoEnv
       \<lparr>tcContextMap = 0, tcSqlSetup = JStr ''S1'', tcSqlTeardown = JStr ''FAIL'',
        tcTestFunc = JFun 1, tcPathnameDir = ''/tests'', tcTreatAsFiles = False\<rparr> demoWorld =
     (Inl (JsError (Foreign 7)
             (''Error executing sql '' @ [CHR 0x22] @ ''FAIL'' @ [CHR 0x22]
                @ '' from raw input: no such table'')),
      demoWorld\<lparr>trace := [ExecuteRawUnsafe ''S1'', Disconnect, Invoked 1 [],
                             ExecuteRawUnsafe ''FAIL'', Disconnect]\<rparr>)"
    by (simp add: prod_eq_iff)
qed

text \<open>
  Claim C6. If the setup fails with \<open>ex\<close> and leaves \<open>w1\<close>, the test fails with \<open>ex\<close> in
  \<open>w1\<close>. The result is the same for every test function, every behaviour of the caller's
  functions and every teardown SQL, and \<open>w1\<close> is the world at the start with nothing
  added, or with statements of the setup and one release: the body has not been called
  and no teardown has run.
\<close>

theorem setup_failure_skips_all:
  assumes "executeSql E (tcContextMap c) (tcSqlSetup c) (tcPathnameDir c) (tcTreatAsFiles c) w
             = (Inl ex, w1)"
  shows "testCallback E c w = (Inl ex, w1) \<and>
         (\<forall>k testFunc sqlTeardown.
            testCallback (E\<lparr>callFunction := k\<rparr>)
              (c\<lparr>tcTestFunc := testFunc, tcSqlTeardown := sqlTeardown\<rparr>) w = (Inl ex, w1)) \<and>
         (w1 = w \<or>
          (\<exists>issued. issued \<noteq> [] \<and>
             w1 = w\<lparr>trace := trace w @ map ExecuteRawUnsafe issued @ [Disconnect]\<rparr>))"
proof (intro conjI allI)
  from assms show "testCallback E c w = (Inl ex, w1)" by (simp add: testCallback_def)
next
  fix k testFunc sqlTeardown
  from assms show "testCallback (E\<lparr>callFunction := k\<rparr>)
              (c\<lparr>tcTestFunc := testFunc, tcSqlTeardown := sqlTeardown\<rparr>) w = (Inl ex, w1)"
    by (simp add: testCallback_def executeSql_callFunction)
next
  from executeSql_shape[of E "tcContextMap c" "tcSqlSetup c" "tcPathnameDir c" "tcTreatAsFiles c" w]
    assms
  show "w1 = w \<or>
          (\<exists>issued. issued \<noteq> [] \<and>
             w1 = w\<lparr>trace := trace w @ map ExecuteRawUnsafe issued @ [Disconnect]\<rparr>)" by simp
qed

theorem setup_failure_skips_all_witness:
  "testCallback demoEnv
       \<lparr>tcContextMap = 0, tcSqlSetup = JStr ''FAIL'', tcSqlTeardown = JStr ''T1'',
        tcTestFunc = JFun 0, tcPathnameDir = ''/tests'', tcTreatAsFiles = False\<rparr> demoWorld =
     (Inl (JsError (Foreign 7)
             (''Error executing sql '' @ [CHR 0x22] @ ''FAIL'' @ [CHR 0x22]
                @ '' from raw input: no such table'')),
      demoWorld\<lparr>trace := [ExecuteRawUnsafe ''FAIL'', Disconnect]\<rparr>)"
  using setup_failure_skips_all[of demoEnv
       "\<lparr>tcContextMap = 0, tcSqlSetup = JStr ''FAIL'', tcSqlTeardown = JStr ''T1'',
        tcTestFunc = JFun 0, tcPathnameDir = ''/tests'', tcTreatAsFiles = False\<rparr>" demoWorld
       "JsError (Foreign 7)
             (''Error executing sql '' @ [CHR 0x22] @ ''FAIL'' @ [CHR 0x22]
                @ '' from raw input: no such table'')"
       "demoWorld\<lparr>trace := [ExecuteRawUnsafe ''FAIL'', Disconnect]\<rparr>"]
  by (simp add: demo_setup_fails)

end
